theory Spec2Isabelle
  imports Complex_Main "HOL-Library.Sublist" "HOL-Library.AList"
begin

section \<open>Strings and configuration\<close>

text \<open>
  A JavaScript string is a sequence of UTF-16 code units. The model uses \<^typ>\<open>string\<close>:
  one \<^typ>\<open>char\<close> is one code unit below 256 (the Latin-1 range), and \<open>length\<close>
  is the \<open>.length\<close> of the source.
\<close>

definition code_unit :: "char \<Rightarrow> nat" where
  "code_unit c = of_char c"

text \<open>\<open>CONFIG.APP\<close> of \<open>js/config.js\<close>.\<close>

definition SESSION_CODE_LENGTH :: nat where
  "SESSION_CODE_LENGTH = 6"

definition MAX_NAME_LENGTH :: nat where
  "MAX_NAME_LENGTH = 50"

definition MIN_NAME_LENGTH :: nat where
  "MIN_NAME_LENGTH = 2"

text \<open>Decimal rendering of a number inside a template literal.\<close>

definition digit_char :: "nat \<Rightarrow> char" where
  "digit_char d = char_of (48 + d)"

fun show_nat :: "nat \<Rightarrow> string" where
  "show_nat n = (if n < 10 then [digit_char n] else show_nat (n div 10) @ [digit_char (n mod 10)])"

declare show_nat.simps [simp del]

text \<open>
  \<open>String.prototype.trim\<close> removes white space and line terminators from both ends;
  the regular-expression class \<open>\s\<close> is the same set. Below 256 these are the code units
  9 to 13, 32 and 160.
\<close>

definition isWhiteSpace :: "char \<Rightarrow> bool" where
  "isWhiteSpace c = (code_unit c \<in> {9, 10, 11, 12, 13, 32, 160})"

definition trim :: "string \<Rightarrow> string" where
  "trim s = rev (dropWhile isWhiteSpace (rev (dropWhile isWhiteSpace s)))"

text \<open>
  \<open>String.prototype.toUpperCase\<close>, unit by unit: the ASCII letters, the Latin-1 letters
  with an upper case inside Latin-1, and the sharp s, which becomes two units. The two
  units whose upper case lies beyond Latin-1 (181 and 255) are left as they are; neither
  they nor their images are letters of \<open>A-Z\<close>.
\<close>

definition upperUnit :: "char \<Rightarrow> string" where
  "upperUnit c =
     (let n = code_unit c in
      if 97 \<le> n \<and> n \<le> 122 then [char_of (n - 32)]
      else if n = 223 then ''SS''
      else if 224 \<le> n \<and> n \<le> 254 \<and> n \<noteq> 247 then [char_of (n - 32)]
      else [c])"

definition toUpperCase :: "string \<Rightarrow> string" where
  "toUpperCase s = concat (map upperUnit s)"

text \<open>The classes of the regular expressions: \<open>[A-Z0-9]\<close>, \<open>\w\<close>, \<open>[<>]\<close> and \<open>[\w\s\-']\<close>.\<close>

definition isCodeChar :: "char \<Rightarrow> bool" where
  "isCodeChar c = (let n = code_unit c in (65 \<le> n \<and> n \<le> 90) \<or> (48 \<le> n \<and> n \<le> 57))"

definition isWordChar :: "char \<Rightarrow> bool" where
  "isWordChar c =
     (let n = code_unit c in
      (65 \<le> n \<and> n \<le> 90) \<or> (97 \<le> n \<and> n \<le> 122) \<or> (48 \<le> n \<and> n \<le> 57) \<or> n = 95)"

definition isAngle :: "char \<Rightarrow> bool" where
  "isAngle c = (c = CHR ''<'' \<or> c = CHR ''>'')"

definition isNameChar :: "char \<Rightarrow> bool" where
  "isNameChar c = (isWordChar c \<or> isWhiteSpace c \<or> c = CHR ''-'' \<or> c = CHR 0x27)"

section \<open>Validators of \<open>Utils\<close>\<close>

text \<open>
  Both validators either call \<open>this.showError(message)\<close> and return \<open>null\<close>, which is
  \<open>Inl message\<close> here, or return the sanitized string, which is \<open>Inr\<close>. The argument is
  the value of a text input, a string; \<open>!code\<close> holds for the empty string.
\<close>

definition sanitizeRoomCode :: "string \<Rightarrow> string" where
  "sanitizeRoomCode code = filter isCodeChar (toUpperCase (trim code))"

definition validateRoomCode :: "string \<Rightarrow> string + string" where
  "validateRoomCode code =
     (if code = [] then Inl ''Room code is required''
      else
        let sanitized = sanitizeRoomCode code in
        if length sanitized \<noteq> SESSION_CODE_LENGTH
        then Inl (''Room code must be exactly '' @ show_nat SESSION_CODE_LENGTH @ '' characters'')
        else Inr sanitized)"

definition truncateName :: "string \<Rightarrow> string" where
  "truncateName name = take MAX_NAME_LENGTH (trim name)"

definition validateParticipantName :: "string \<Rightarrow> string + string" where
  "validateParticipantName name =
     (if name = [] then Inl ''Name is required''
      else
        let sanitized = truncateName name in
        if length sanitized < MIN_NAME_LENGTH
        then Inl (''Name must be at least '' @ show_nat MIN_NAME_LENGTH @ '' characters'')
        else Inr (filter isNameChar (filter (\<lambda>c. \<not> isAngle c) sanitized)))"

section \<open>Room code generation\<close>

text \<open>
  \<open>generateRoomCode\<close> draws \<open>SESSION_CODE_LENGTH\<close> times from \<open>Math.random()\<close>; the
  argument \<open>random\<close> gives the draw of each round of the loop. A draw is a double in
  \<open>[0, 1)\<close>; its product with the alphabet's length 32, a power of two, is exact, so the
  real product and its floor are the values the source computes. \<open>charAt\<close> returns the
  empty string out of range.
\<close>

definition chars :: string where
  "chars = ''ABCDEFGHJKLMNPQRSTUVWXYZ23456789''"

definition charAt :: "string \<Rightarrow> int \<Rightarrow> string" where
  "charAt s i = (if 0 \<le> i \<and> i < int (length s) then [s ! nat i] else [])"

definition generateRoomCode :: "(nat \<Rightarrow> real) \<Rightarrow> string" where
  "generateRoomCode random =
     foldl (\<lambda>code i. code @ charAt chars \<lfloor>random i * real (length chars)\<rfloor>)
       [] [0..<SESSION_CODE_LENGTH]"

section \<open>The hosted realtime store\<close>

text \<open>
  The store is a tree of JSON values addressed by slash-separated paths. \<open>JNull\<close> is the
  absent node: the store keeps no null leaf and no empty object. \<open>ServerTimestamp\<close> is
  the placeholder \<open>firebase.database.ServerValue.TIMESTAMP\<close>.
\<close>

datatype json =
  JNull
  | JBool bool
  | JNum int
  | JStr string
  | JArr "json list"
  | JObj "(string \<times> json) list"
  | ServerTimestamp

text \<open>A JavaScript \<open>Error\<close>: its name and its message.\<close>

datatype error = Error string string



text \<open>\<open>database.ref(path)\<close>: the path is split at the slashes, empty pieces dropped.\<close>

fun split_on :: "char \<Rightarrow> string \<Rightarrow> string list" where
  "split_on sep [] = [[]]"
| "split_on sep (c # cs) =
     (if c = sep then [] # split_on sep cs
      else (case split_on sep cs of [] \<Rightarrow> [[c]] | p # ps \<Rightarrow> (c # p) # ps))"

definition ref :: "string \<Rightarrow> string list" where
  "ref path = filter (\<lambda>piece. piece \<noteq> []) (split_on CHR ''/'' path)"

text \<open>
  What the store keeps of a value written to it. A property or element whose value is
  \<open>null\<close> is not kept, an object or array left with nothing is itself absent, and an
  array is kept as the object of its elements under their indices.
\<close>

definition node :: "(string \<times> json) list \<Rightarrow> json" where
  "node kvs =
     (let kept = filter (\<lambda>kv. snd kv \<noteq> JNull) kvs in if kept = [] then JNull else JObj kept)"

fun stored :: "json \<Rightarrow> json" where
  "stored (JArr xs) = node (zip (map show_nat [0..<length xs]) (map stored xs))"
| "stored (JObj kvs) = node (map (map_prod id stored) kvs)"
| "stored v = v"

definition properties :: "json \<Rightarrow> (string \<times> json) list" where
  "properties j = (case j of JObj kvs \<Rightarrow> kvs | _ \<Rightarrow> [])"

definition child :: "json \<Rightarrow> string \<Rightarrow> json" where
  "child j k = (case map_of (properties j) k of Some v \<Rightarrow> v | None \<Rightarrow> JNull)"

definition set_child :: "string \<Rightarrow> json \<Rightarrow> json \<Rightarrow> json" where
  "set_child k v j =
     (let others = filter (\<lambda>kv. fst kv \<noteq> k) (properties j);
          kvs = (if v = JNull then others else others @ [(k, v)])
      in if kvs = [] then JNull else JObj kvs)"

fun get_at :: "string list \<Rightarrow> json \<Rightarrow> json" where
  "get_at [] j = j"
| "get_at (k # ks) j = get_at ks (child j k)"

text \<open>\<open>set\<close> replaces the whole subtree at the path and creates the nodes above it.\<close>

fun set_at :: "string list \<Rightarrow> json \<Rightarrow> json \<Rightarrow> json" where
  "set_at [] v j = v"
| "set_at (k # ks) v j = set_child k (set_at ks v (child j k)) j"

text \<open>\<open>update\<close> sets the named children of the node and leaves its other children.\<close>

definition update_at :: "string list \<Rightarrow> (string \<times> json) list \<Rightarrow> json \<Rightarrow> json" where
  "update_at p kvs j = foldl (\<lambda>t kv. set_at (p @ [fst kv]) (snd kv) t) j kvs"

text \<open>
  The records under \<open>transcripts/{code}\<close> are kept apart from the tree, typed, in the
  order of their push keys, which is the order they were written in. A table number is a
  non-negative integer; as a JavaScript number it is exact, and its string the decimal
  one, up to \<open>2^53 - 1\<close>.
\<close>

record transcriptData =
  t_sessionCode :: string
  t_tableNumber :: nat
  t_phaseIndex :: int
  t_transcript :: string
  t_duration :: int
  t_timestamp :: json

datatype storeWrite =
  Set "string list" json
  | Update "string list" "(string \<times> json) list"
  | PushSet string string transcriptData

text \<open>A request sent with \<open>fetch\<close>: the URL and the JSON value of its body.\<close>

record fetchRequest =
  url :: string
  requestBody :: json

text \<open>
  Everything an operation can change: the store (\<open>tree\<close>, \<open>transcripts\<close>), the log of
  every write call issued to the store whether it was accepted or not, with the value as
  the store would keep it, the log of
  \<open>fetch\<close> calls, and the page (toasts as type and message, the events handed to the
  analytics script, the loading overlay, the activity feed). \<open>console\<close> output is not part
  of the model.
\<close>

record world =
  tree :: json
  transcripts :: "(string \<times> string \<times> transcriptData) list"
  writes :: "storeWrite list"
  requests :: "fetchRequest list"
  toasts :: "(string \<times> string) list"
  events :: "(string \<times> string \<times> string) list"
  loading :: bool
  activity :: "string list"

section \<open>Asynchronous operations\<close>

text \<open>
  An \<open>async\<close> function is a function of the world that returns its result or the error it
  throws, and the world it leaves. \<open>await m f\<close> runs \<open>m\<close> and continues with \<open>f\<close> on its
  result; an error of \<open>m\<close> passes through. \<open>try_catch\<close> is \<open>try { ... } catch (error)
  { ... }\<close>.
\<close>

type_synonym 'a async = "world \<Rightarrow> (error + 'a) \<times> world"

definition succeed :: "'a \<Rightarrow> 'a async" where
  "succeed x w = (Inr x, w)"

definition raise :: "error \<Rightarrow> 'a async" where
  "raise e w = (Inl e, w)"

definition await :: "'a async \<Rightarrow> ('a \<Rightarrow> 'b async) \<Rightarrow> 'b async" where
  "await m f w = (case m w of (Inl e, w') \<Rightarrow> (Inl e, w') | (Inr x, w') \<Rightarrow> f x w')"

definition try_catch :: "'a async \<Rightarrow> (error \<Rightarrow> 'a async) \<Rightarrow> 'a async" where
  "try_catch body handler w =
     (case body w of (Inl e, w') \<Rightarrow> handler e w' | (Inr x, w') \<Rightarrow> (Inr x, w'))"

definition effect :: "(world \<Rightarrow> world) \<Rightarrow> unit async" where
  "effect f w = (Inr (), f w)"

text \<open>
  What the hosted store does with one call is not decided by this code: the call
  resolves, or it rejects (or throws) with an error.
\<close>

datatype outcome = Resolves | Rejects error

definition store_once :: "outcome \<Rightarrow> string \<Rightarrow> json async" where
  "store_once oc path w =
     (case oc of Rejects e \<Rightarrow> (Inl e, w) | Resolves \<Rightarrow> (Inr (get_at (ref path) (tree w)), w))"

definition store_set :: "outcome \<Rightarrow> string \<Rightarrow> json \<Rightarrow> unit async" where
  "store_set oc path v w =
     (let w' = w\<lparr>writes := writes w @ [Set (ref path) (stored v)]\<rparr> in
      case oc of
        Rejects e \<Rightarrow> (Inl e, w')
      | Resolves \<Rightarrow> (Inr (), w'\<lparr>tree := set_at (ref path) (stored v) (tree w')\<rparr>))"

definition store_update :: "outcome \<Rightarrow> string \<Rightarrow> (string \<times> json) list \<Rightarrow> unit async" where
  "store_update oc path kvs w =
     (let kept = map (map_prod id stored) kvs;
          w' = w\<lparr>writes := writes w @ [Update (ref path) kept]\<rparr>
      in
      case oc of
        Rejects e \<Rightarrow> (Inl e, w')
      | Resolves \<Rightarrow> (Inr (), w'\<lparr>tree := update_at (ref path) kept (tree w')\<rparr>))"

text \<open>\<open>ref('transcripts/' + code).push()\<close> with the new key, then \<open>set\<close> on it.\<close>

definition store_push_set :: "outcome \<Rightarrow> string \<Rightarrow> string \<Rightarrow> transcriptData \<Rightarrow> unit async" where
  "store_push_set oc code key d w =
     (let w' = w\<lparr>writes := writes w @ [PushSet code key d]\<rparr> in
      case oc of
        Rejects e \<Rightarrow> (Inl e, w')
      | Resolves \<Rightarrow> (Inr (), w'\<lparr>transcripts := transcripts w' @ [(code, key, d)]\<rparr>))"

text \<open>
  \<open>ref('transcripts/' + code)\<close>, narrowed by \<open>orderByChild('phaseIndex').equalTo(phase)\<close>
  when a phase is given, read once: the children as pairs of key and value.
\<close>

definition store_query ::
  "outcome \<Rightarrow> string \<Rightarrow> int option \<Rightarrow> (string \<times> transcriptData) list async" where
  "store_query oc code phase w =
     (case oc of
        Rejects e \<Rightarrow> (Inl e, w)
      | Resolves \<Rightarrow>
          (Inr (filter (\<lambda>kd. case phase of None \<Rightarrow> True | Some p \<Rightarrow> t_phaseIndex (snd kd) = p)
                 (map snd (filter (\<lambda>ckd. fst ckd = code) (transcripts w)))), w))"

section \<open>Page helpers of \<open>Utils\<close>\<close>

definition ENABLE_ANALYTICS :: bool where
  "ENABLE_ANALYTICS = True"

definition trackEvent :: "string \<Rightarrow> string \<Rightarrow> string \<Rightarrow> world \<Rightarrow> world" where
  "trackEvent category action label w =
     (if \<not> ENABLE_ANALYTICS then w else w\<lparr>events := events w @ [(category, action, label)]\<rparr>)"

definition showToast :: "string \<Rightarrow> string \<Rightarrow> world \<Rightarrow> world" where
  "showToast msg type w = w\<lparr>toasts := toasts w @ [(type, msg)]\<rparr>"

definition showError :: "string \<Rightarrow> world \<Rightarrow> world" where
  "showError msg w = trackEvent ''error'' ''user_error'' msg (showToast msg ''error'' w)"

definition showSuccess :: "string \<Rightarrow> world \<Rightarrow> world" where
  "showSuccess msg w = showToast msg ''success'' w"

definition setLoading :: "bool \<Rightarrow> world \<Rightarrow> world" where
  "setLoading show w = w\<lparr>loading := show\<rparr>"

definition show_int :: "int \<Rightarrow> string" where
  "show_int i = (if i < 0 then ''-'' @ show_nat (nat (- i)) else show_nat (nat i))"

section \<open>The persistence adapter \<open>FirebaseService\<close>\<close>

text \<open>
  Each operation takes first the outcome of every store call it makes. Its result is the
  JavaScript value it returns.
\<close>

definition createSession :: "outcome \<Rightarrow> string \<Rightarrow> string \<Rightarrow> string \<Rightarrow> json async" where
  "createSession oc sessionCode facilitatorId facilitatorName =
     try_catch
       (let sessionData = JObj
          [(''code'', JStr sessionCode),
           (''facilitatorId'', JStr facilitatorId),
           (''facilitatorName'', JStr facilitatorName),
           (''createdAt'', ServerTimestamp),
           (''phase'', JNum 0),
           (''timerActive'', JBool False),
           (''timerDuration'', JNum 0),
           (''status'', JStr ''active'')]
        in
        await (store_set oc (''sessions/'' @ sessionCode) sessionData) (\<lambda>_.
        await (effect (trackEvent ''session'' ''create'' sessionCode)) (\<lambda>_.
        succeed (JBool True))))
       (\<lambda>error.
        await (effect (showError ''Failed to create workshop session'')) (\<lambda>_.
        succeed (JBool False)))"

definition sessionExists :: "outcome \<Rightarrow> string \<Rightarrow> bool async" where
  "sessionExists oc sessionCode =
     try_catch
       (await (store_once oc (''sessions/'' @ sessionCode)) (\<lambda>snapshot.
        succeed (snapshot \<noteq> JNull)))
       (\<lambda>error. succeed False)"

definition joinSession :: "outcome \<Rightarrow> outcome \<Rightarrow> string \<Rightarrow> string \<Rightarrow> string \<Rightarrow> json async" where
  "joinSession rd wr sessionCode participantId participantName =
     try_catch
       (await (sessionExists rd sessionCode) (\<lambda>exists.
        if \<not> exists then
          await (effect (showError ''Workshop session not found'')) (\<lambda>_.
          succeed (JBool False))
        else
          let participantData = JObj
            [(''id'', JStr participantId),
             (''name'', JStr participantName),
             (''joinedAt'', ServerTimestamp),
             (''status'', JStr ''online''),
             (''tableNumber'', JNull)]
          in
          await (store_set wr (''sessions/'' @ sessionCode @ ''/participants/'' @ participantId)
                   participantData) (\<lambda>_.
          await (effect (trackEvent ''session'' ''join'' sessionCode)) (\<lambda>_.
          succeed (JBool True)))))
       (\<lambda>error.
        await (effect (showError ''Failed to join workshop session'')) (\<lambda>_.
        succeed (JBool False)))"

text \<open>The function that \<open>updateParticipantStatus\<close> debounces; it returns nothing.\<close>

definition writeParticipantStatus :: "outcome \<Rightarrow> string \<Rightarrow> string \<Rightarrow> string \<Rightarrow> unit async" where
  "writeParticipantStatus oc sessionCode participantId status =
     try_catch
       (store_set oc (''sessions/'' @ sessionCode @ ''/participants/'' @ participantId @ ''/status'')
          (JStr status))
       (\<lambda>error. succeed ())"

definition saveTranscript ::
  "outcome \<Rightarrow> string \<Rightarrow> string \<Rightarrow> nat \<Rightarrow> int \<Rightarrow> string \<Rightarrow> int \<Rightarrow> json async" where
  "saveTranscript oc newKey sessionCode tableNumber phaseIndex transcript duration =
     try_catch
       (let transcriptData =
          \<lparr>t_sessionCode = sessionCode, t_tableNumber = tableNumber, t_phaseIndex = phaseIndex,
           t_transcript = transcript, t_duration = duration, t_timestamp = ServerTimestamp\<rparr>
        in
        await (store_push_set oc sessionCode newKey transcriptData) (\<lambda>_.
        await (effect (trackEvent ''transcript'' ''save''
                 (''table'' @ show_nat tableNumber @ ''_phase'' @ show_int phaseIndex))) (\<lambda>_.
        succeed (JStr newKey))))
       (\<lambda>error.
        await (effect (showError ''Failed to save transcript'')) (\<lambda>_.
        succeed JNull))"

definition getTranscripts ::
  "outcome \<Rightarrow> string \<Rightarrow> int option \<Rightarrow> (string \<times> transcriptData) list async" where
  "getTranscripts oc sessionCode phaseIndex =
     try_catch
       (await (store_query oc sessionCode phaseIndex) (\<lambda>snapshot. succeed snapshot))
       (\<lambda>error. succeed [])"

definition saveThemes :: "outcome \<Rightarrow> string \<Rightarrow> nat \<Rightarrow> json \<Rightarrow> json \<Rightarrow> json async" where
  "saveThemes oc sessionCode tableNumber themes synthesis =
     try_catch
       (let themeData = JObj
          [(''sessionCode'', JStr sessionCode),
           (''tableNumber'', JNum (int tableNumber)),
           (''themes'', themes),
           (''synthesis'', synthesis),
           (''timestamp'', ServerTimestamp)]
        in
        await (store_set oc (''themes/'' @ sessionCode @ ''/table'' @ show_nat tableNumber)
                 themeData) (\<lambda>_.
        await (effect (trackEvent ''themes'' ''save'' (''table'' @ show_nat tableNumber))) (\<lambda>_.
        succeed (JBool True))))
       (\<lambda>error.
        await (effect (showError ''Failed to save themes'')) (\<lambda>_.
        succeed (JBool False)))"

definition updatePhase :: "outcome \<Rightarrow> string \<Rightarrow> int \<Rightarrow> json async" where
  "updatePhase oc sessionCode phaseIndex =
     try_catch
       (await (store_set oc (''sessions/'' @ sessionCode @ ''/phase'') (JNum phaseIndex)) (\<lambda>_.
        await (effect (trackEvent ''session'' ''phase_change'' (''phase'' @ show_int phaseIndex))) (\<lambda>_.
        succeed (JBool True))))
       (\<lambda>error. succeed (JBool False))"

definition updateTimer :: "outcome \<Rightarrow> string \<Rightarrow> bool \<Rightarrow> int \<Rightarrow> json async" where
  "updateTimer oc sessionCode active duration =
     try_catch
       (await (store_update oc (''sessions/'' @ sessionCode)
                 [(''timerActive'', JBool active), (''timerDuration'', JNum duration)]) (\<lambda>_.
        succeed (JBool True)))
       (\<lambda>error. succeed (JBool False))"

definition endSession :: "outcome \<Rightarrow> string \<Rightarrow> json async" where
  "endSession oc sessionCode =
     try_catch
       (await (store_set oc (''sessions/'' @ sessionCode @ ''/status'') (JStr ''ended'')) (\<lambda>_.
        await (effect (trackEvent ''session'' ''end'' sessionCode)) (\<lambda>_.
        succeed (JBool True))))
       (\<lambda>error. succeed (JBool False))"

text \<open>A world with an empty store and an empty page, for concrete runs.\<close>

definition emptyWorld :: world where
  "emptyWorld =
     \<lparr>tree = JNull, transcripts = [], writes = [], requests = [], toasts = [], events = [],
      loading = False, activity = []\<rparr>"

text \<open>The participant record as the store keeps it: \<open>tableNumber: null\<close> is not stored.\<close>

definition storedParticipant :: "string \<Rightarrow> string \<Rightarrow> json" where
  "storedParticipant participantId participantName =
     JObj [(''id'', JStr participantId), (''name'', JStr participantName),
           (''joinedAt'', ServerTimestamp), (''status'', JStr ''online'')]"

definition isBoolean :: "json \<Rightarrow> bool" where
  "isBoolean v = (case v of JBool b \<Rightarrow> True | _ \<Rightarrow> False)"

text \<open>The world after a facilitator has created the session \<open>ABC123\<close>.\<close>

definition sessionWorld :: world where
  "sessionWorld = snd (createSession Resolves ''ABC123'' ''f1'' ''Fay'' emptyWorld)"

section \<open>Sequences of adapter operations\<close>

text \<open>
  One call of the adapter, with the outcome of each store call it makes, and a sequence of
  such calls run one after the other on the same store.
\<close>

datatype adapterOp =
  CreateSession outcome string string string
  | JoinSession outcome outcome string string string
  | UpdatePhase outcome string int
  | UpdateTimer outcome string bool int
  | EndSession outcome string

fun perform :: "adapterOp \<Rightarrow> world \<Rightarrow> world" where
  "perform (CreateSession oc code fid name) w = snd (createSession oc code fid name w)"
| "perform (JoinSession rd wr code pid name) w = snd (joinSession rd wr code pid name w)"
| "perform (UpdatePhase oc code phaseIndex) w = snd (updatePhase oc code phaseIndex w)"
| "perform (UpdateTimer oc code active duration) w = snd (updateTimer oc code active duration w)"
| "perform (EndSession oc code) w = snd (endSession oc code w)"

definition performAll :: "adapterOp list \<Rightarrow> world \<Rightarrow> world" where
  "performAll ops w = foldl (\<lambda>w' op. perform op w') w ops"

fun opCode :: "adapterOp \<Rightarrow> string" where
  "opCode (CreateSession oc code fid name) = code"
| "opCode (JoinSession rd wr code pid name) = code"
| "opCode (UpdatePhase oc code phaseIndex) = code"
| "opCode (UpdateTimer oc code active duration) = code"
| "opCode (EndSession oc code) = code"

text \<open>An accepted \<open>createSession\<close> on the given code.\<close>

fun recreates :: "string \<Rightarrow> adapterOp \<Rightarrow> bool" where
  "recreates code (CreateSession Resolves code' fid name) = (code' = code)"
| "recreates code other = False"

text \<open>
  A string that is one piece of a path: not empty and without a slash. Every code that
  \<open>validateRoomCode\<close> returns or \<open>generateRoomCode\<close> produces is one.
\<close>

definition isKey :: "string \<Rightarrow> bool" where
  "isKey k = (k \<noteq> [] \<and> CHR ''/'' \<notin> set k)"

definition sessionField :: "string \<Rightarrow> string \<Rightarrow> world \<Rightarrow> json" where
  "sessionField code name w = get_at (ref (''sessions/'' @ code @ ''/'' @ name)) (tree w)"

section \<open>Theme generation in the facilitator page\<close>

definition OPENAI_PROXY :: string where
  "OPENAI_PROXY = ''/.netlify/functions/openai-proxy''"

definition addActivity :: "string \<Rightarrow> world \<Rightarrow> world" where
  "addActivity text w = w\<lparr>activity := take 50 (text # activity w)\<rparr>"

text \<open>
  What one \<open>fetch\<close> to the proxy does is not decided by the page: the promise rejects, or
  a response arrives with its \<open>ok\<close> flag and the value of \<open>response.json()\<close>, \<open>None\<close> when
  that throws.
\<close>

datatype fetchResult = FetchRejects error | Responds bool "json option"

definition fetch :: "fetchResult \<Rightarrow> string \<Rightarrow> json \<Rightarrow> (bool \<times> json option) async" where
  "fetch fr address body w =
     (let w' = w\<lparr>requests := requests w @ [\<lparr>url = address, requestBody = body\<rparr>]\<rparr> in
      case fr of
        FetchRejects e \<Rightarrow> (Inl e, w')
      | Responds ok data \<Rightarrow> (Inr (ok, data), w'))"

definition response_json :: "json option \<Rightarrow> json async" where
  "response_json data =
     (case data of
        None \<Rightarrow> raise (Error ''SyntaxError'' ''Unexpected end of JSON input'')
      | Some d \<Rightarrow> succeed d)"

text \<open>A property read \<open>value.name\<close>: \<open>None\<close> is \<open>undefined\<close>.\<close>

definition property :: "json \<Rightarrow> string \<Rightarrow> json option" where
  "property j name = map_of (properties j) name"

text \<open>
  \<open>Utils.safeJsonParse\<close>. The builtin \<open>JSON.parse\<close> is a parameter: it is given the value
  read from the response and returns \<open>None\<close> when it throws.
\<close>

definition safeJsonParse :: "(json option \<Rightarrow> json option) \<Rightarrow> json option \<Rightarrow> json \<Rightarrow> json" where
  "safeJsonParse JSON_parse str fallback =
     (case JSON_parse str of Some v \<Rightarrow> v | None \<Rightarrow> fallback)"

definition themePrompt :: "string \<Rightarrow> string" where
  "themePrompt text =
     ''Extract 3-5 key themes from the following discussion transcript. '' @
     ''Return only a JSON array of short theme labels (3-7 words each):'' @
     [CHR 0x0A, CHR 0x0A] @ text"

definition generateThemesFromText ::
  "(json option \<Rightarrow> json option) \<Rightarrow> fetchResult \<Rightarrow> string \<Rightarrow> json async" where
  "generateThemesFromText JSON_parse fr text =
     try_catch
       (await (fetch fr OPENAI_PROXY
                 (JObj [(''prompt'', JStr (themePrompt text)), (''maxTokens'', JNum 200)]))
          (\<lambda>response.
        if \<not> fst response then raise (Error ''Error'' ''OpenAI API error'')
        else
          await (response_json (snd response)) (\<lambda>data.
          if data = JNull
          then raise (Error ''TypeError'' ''Cannot read properties of null'')
          else succeed (safeJsonParse JSON_parse (property data ''themes'')
                 (JArr [JStr ''Theme 1'', JStr ''Theme 2'', JStr ''Theme 3''])))))
       (\<lambda>error. succeed (JArr [JStr ''Theme extraction failed'']))"

text \<open>
  \<open>tableTranscripts\<close> is an object with one property per table, its key the decimal string
  of the table number; the association list keeps the properties in the order they were
  created. \<open>parseInt\<close> is applied to these keys only, strings of decimal digits.
\<close>

definition parseInt :: "string \<Rightarrow> nat" where
  "parseInt s = foldl (\<lambda>n c. 10 * n + (code_unit c - 48)) 0 s"

definition addTranscript ::
  "(string \<times> string list) list \<Rightarrow> string \<times> transcriptData \<Rightarrow> (string \<times> string list) list" where
  "addTranscript tableTranscripts t =
     (let key = show_nat (t_tableNumber (snd t));
          created = (case map_of tableTranscripts key of
                       None \<Rightarrow> AList.update key [] tableTranscripts
                     | Some texts \<Rightarrow> tableTranscripts);
          texts = (case map_of created key of None \<Rightarrow> [] | Some texts \<Rightarrow> texts)
      in AList.update key (texts @ [t_transcript (snd t)]) created)"

text \<open>
  \<open>Object.entries\<close> lists first the properties whose key is an array index, the canonical
  decimal string of an integer below \<open>2^32 - 1\<close>, in ascending numeric order, and then
  the other properties in the order they were created.
\<close>

definition isArrayIndex :: "string \<Rightarrow> bool" where
  "isArrayIndex key = (show_nat (parseInt key) = key \<and> parseInt key < 4294967295)"

definition objectEntries :: "(string \<times> 'a) list \<Rightarrow> (string \<times> 'a) list" where
  "objectEntries entries =
     sort_key (\<lambda>kv. parseInt (fst kv)) (filter (\<lambda>kv. isArrayIndex (fst kv)) entries) @
     filter (\<lambda>kv. \<not> isArrayIndex (fst kv)) entries"

fun join :: "string \<Rightarrow> string list \<Rightarrow> string" where
  "join sep [] = []"
| "join sep [x] = x"
| "join sep (x # y # ys) = x @ sep @ join sep (y # ys)"

text \<open>
  The loop over the tables. \<open>fetchOf\<close> and \<open>saveOf\<close> give, for each table, what the proxy
  request and the store write for that table do.
\<close>

fun themesLoop ::
  "(json option \<Rightarrow> json option) \<Rightarrow> (nat \<Rightarrow> fetchResult) \<Rightarrow> (nat \<Rightarrow> outcome) \<Rightarrow> string \<Rightarrow>
   (string \<times> string list) list \<Rightarrow> unit async" where
  "themesLoop JSON_parse fetchOf saveOf code [] = succeed ()"
| "themesLoop JSON_parse fetchOf saveOf code ((tableNum, texts) # rest) =
     (let combinedText = join [CHR 0x0A, CHR 0x0A] texts in
      await (generateThemesFromText JSON_parse (fetchOf (parseInt tableNum)) combinedText) (\<lambda>themes.
      await (saveThemes (saveOf (parseInt tableNum)) code (parseInt tableNum) themes JNull) (\<lambda>_.
      themesLoop JSON_parse fetchOf saveOf code rest)))"

text \<open>
  \<open>handleGenerateThemes\<close>. Of the page's variables it reads \<open>sessionData\<close>, here the code of
  the cached session if there is one, and \<open>currentPhase\<close>.
\<close>

definition handleGenerateThemes ::
  "(json option \<Rightarrow> json option) \<Rightarrow> outcome \<Rightarrow> (nat \<Rightarrow> fetchResult) \<Rightarrow> (nat \<Rightarrow> outcome) \<Rightarrow>
   string option \<Rightarrow> int \<Rightarrow> unit async" where
  "handleGenerateThemes JSON_parse rd fetchOf saveOf sessionData currentPhase =
     (case sessionData of
        None \<Rightarrow> succeed ()
      | Some code \<Rightarrow>
          await (effect (setLoading True)) (\<lambda>_.
          try_catch
            (await (getTranscripts rd code (Some currentPhase)) (\<lambda>transcripts.
             if length transcripts = 0 then
               await (effect (showError ''No transcripts found for this phase'')) (\<lambda>_.
               await (effect (setLoading False)) (\<lambda>_.
               succeed ()))
             else
               let tableTranscripts = foldl addTranscript [] transcripts in
               await (themesLoop JSON_parse fetchOf saveOf code (objectEntries tableTranscripts)) (\<lambda>_.
               await (effect (setLoading False)) (\<lambda>_.
               await (effect (showSuccess ''Themes generated successfully!'')) (\<lambda>_.
               await (effect (addActivity ''Themes generated from transcripts'')) (\<lambda>_.
               await (effect (trackEvent ''workshop'' ''generate_themes''
                        (''phase_'' @ show_int currentPhase))) (\<lambda>_.
               succeed ())))))))
            (\<lambda>error.
             await (effect (showError ''Failed to generate themes'')) (\<lambda>_.
             await (effect (setLoading False)) (\<lambda>_.
             succeed ())))))"

text \<open>
  For the statements about the loop: the tables of a list of transcripts in the order the
  loop visits them (the table numbers below \<open>2^32 - 1\<close> ascending, then the others in the
  order of their first transcript), the texts of one table in order, the themes that one
  proxy result leads to, and the theme record as the store keeps it (\<open>synthesis: null\<close>
  is not stored, nor are themes that are \<open>null\<close> or empty).
\<close>

definition firstSeen :: "nat list \<Rightarrow> nat list" where
  "firstSeen ns = foldl (\<lambda>seen n. if n \<in> set seen then seen else seen @ [n]) [] ns"

definition tablesOf :: "(string \<times> transcriptData) list \<Rightarrow> nat list" where
  "tablesOf ts =
     (let seen = firstSeen (map (\<lambda>t. t_tableNumber (snd t)) ts) in
      sort (filter (\<lambda>n. n < 4294967295) seen) @ filter (\<lambda>n. \<not> n < 4294967295) seen)"

definition textsOf :: "nat \<Rightarrow> (string \<times> transcriptData) list \<Rightarrow> string list" where
  "textsOf n ts = map (\<lambda>t. t_transcript (snd t)) (filter (\<lambda>t. t_tableNumber (snd t) = n) ts)"

definition themeRequest :: "string list \<Rightarrow> fetchRequest" where
  "themeRequest texts =
     \<lparr>url = OPENAI_PROXY,
      requestBody = JObj [(''prompt'', JStr (themePrompt (join [CHR 0x0A, CHR 0x0A] texts))),
                          (''maxTokens'', JNum 200)]\<rparr>"

definition themesOf :: "(json option \<Rightarrow> json option) \<Rightarrow> fetchResult \<Rightarrow> json" where
  "themesOf JSON_parse fr =
     (case fr of
        Responds True (Some data) \<Rightarrow>
          if data = JNull then JArr [JStr ''Theme extraction failed'']
          else safeJsonParse JSON_parse (property data ''themes'')
                 (JArr [JStr ''Theme 1'', JStr ''Theme 2'', JStr ''Theme 3''])
      | _ \<Rightarrow> JArr [JStr ''Theme extraction failed''])"

definition storedThemes :: "string \<Rightarrow> nat \<Rightarrow> json \<Rightarrow> json" where
  "storedThemes code n themes =
     node [(''sessionCode'', JStr code), (''tableNumber'', JNum (int n)),
           (''themes'', stored themes), (''timestamp'', ServerTimestamp)]"

definition themesPath :: "string \<Rightarrow> nat \<Rightarrow> string list" where
  "themesPath code n = [''themes'', code, ''table'' @ show_nat n]"

text \<open>The tree after the write of one table's themes with the given outcome.\<close>

definition saved :: "outcome \<Rightarrow> string \<Rightarrow> nat \<Rightarrow> json \<Rightarrow> json \<Rightarrow> json" where
  "saved oc code n themes t =
     (case oc of
        Resolves \<Rightarrow> set_at (themesPath code n) (storedThemes code n themes) t
      | Rejects e \<Rightarrow> t)"

text \<open>
  A world with three transcripts of phase 0 in session \<open>ABC123\<close>, two of table 1 and one
  of table 2, and one transcript of phase 1.
\<close>

definition transcriptsWorld :: world where
  "transcriptsWorld =
     snd (saveTranscript Resolves ''k4'' ''ABC123'' 1 1 ''later'' 7
       (snd (saveTranscript Resolves ''k3'' ''ABC123'' 1 0 ''more from one'' 9
         (snd (saveTranscript Resolves ''k2'' ''ABC123'' 2 0 ''table two'' 8
           (snd (saveTranscript Resolves ''k1'' ''ABC123'' 1 0 ''table one'' 5 sessionWorld)))))))"

text \<open>
  One behaviour of the proxy and the store, for a concrete run: the request for table 1
  fails, the others are answered with one theme; the write for table 2 is rejected.
\<close>

definition demoFetch :: "nat \<Rightarrow> fetchResult" where
  "demoFetch n =
     (if n = 1 then FetchRejects (Error ''TypeError'' ''Failed to fetch'')
      else Responds True (Some (JObj [(''themes'', JArr [JStr ''budget''])])))"

definition demoSave :: "nat \<Rightarrow> outcome" where
  "demoSave n = (if n = 2 then Rejects (Error ''Error'' ''PERMISSION_DENIED'') else Resolves)"

definition phaseZero :: "(string \<times> transcriptData) list" where
  "phaseZero =
     [(''k1'', \<lparr>t_sessionCode = ''ABC123'', t_tableNumber = 1, t_phaseIndex = 0,
               t_transcript = ''table one'', t_duration = 5,
               t_timestamp = ServerTimestamp\<rparr>),
      (''k2'', \<lparr>t_sessionCode = ''ABC123'', t_tableNumber = 2, t_phaseIndex = 0,
               t_transcript = ''table two'', t_duration = 8,
               t_timestamp = ServerTimestamp\<rparr>),
      (''k3'', \<lparr>t_sessionCode = ''ABC123'', t_tableNumber = 1, t_phaseIndex = 0,
               t_transcript = ''more from one'', t_duration = 9,
               t_timestamp = ServerTimestamp\<rparr>)]"

section \<open>Debounced presence updates\<close>

text \<open>
  \<open>Utils.debounce(func, wait)\<close>. The closure keeps one variable, \<open>timeout\<close>, the id that
  the last \<open>setTimeout\<close> returned. The timers that the closure has set and that have neither
  run nor been cleared are \<open>pending\<close>, each with its id, the time in milliseconds it is
  due at and the arguments its callback \<open>later\<close> has captured.
\<close>

record 'a debounced =
  timeout :: "nat option"
  pending :: "(nat \<times> nat \<times> 'a) list"
  nextId :: nat

definition clearTimeout :: "nat option \<Rightarrow> 'a debounced \<Rightarrow> 'a debounced" where
  "clearTimeout timer d =
     (case timer of
        None \<Rightarrow> d
      | Some i \<Rightarrow> d\<lparr>pending := filter (\<lambda>t. fst t \<noteq> i) (pending d)\<rparr>)"

definition setTimeout :: "nat \<Rightarrow> nat \<Rightarrow> 'a \<Rightarrow> 'a debounced \<Rightarrow> nat \<times> 'a debounced" where
  "setTimeout wait now args d =
     (nextId d,
      d\<lparr>pending := pending d @ [(nextId d, now + wait, args)], nextId := Suc (nextId d)\<rparr>)"

text \<open>
  A call of the debounced function at time \<open>now\<close>:
  \<open>clearTimeout(timeout); timeout = setTimeout(later, wait)\<close>.
\<close>

definition executedFunction :: "nat \<Rightarrow> nat \<Rightarrow> 'a \<Rightarrow> 'a debounced \<Rightarrow> 'a debounced" where
  "executedFunction wait now args d =
     (let cleared = clearTimeout (timeout d) d;
          started = setTimeout wait now args cleared
      in (snd started)\<lparr>timeout := Some (fst started)\<rparr>)"

text \<open>The callback of a timer: \<open>clearTimeout(timeout); func.apply(this, args)\<close>.\<close>

definition later ::
  "('a \<Rightarrow> world \<Rightarrow> world) \<Rightarrow> 'a \<Rightarrow> 'a debounced \<times> world \<Rightarrow> 'a debounced \<times> world" where
  "later func args s = (clearTimeout (timeout (fst s)) (fst s), func args (snd s))"

text \<open>
  The event loop at time \<open>now\<close>: the timers that are due run in the order of their due
  times, each unless it has been cleared by then; a timer never runs before it is due.
\<close>

fun fire ::
  "('a \<Rightarrow> world \<Rightarrow> world) \<Rightarrow> (nat \<times> nat \<times> 'a) list \<Rightarrow> 'a debounced \<times> world \<Rightarrow>
   'a debounced \<times> world" where
  "fire func [] s = s"
| "fire func (t # ts) s =
     fire func ts
       (if fst t \<in> set (map fst (pending (fst s)))
        then later func (snd (snd t))
          ((fst s)\<lparr>pending := filter (\<lambda>u. fst u \<noteq> fst t) (pending (fst s))\<rparr>, snd s)
        else s)"

definition runTimers ::
  "('a \<Rightarrow> world \<Rightarrow> world) \<Rightarrow> nat \<Rightarrow> 'a debounced \<times> world \<Rightarrow> 'a debounced \<times> world" where
  "runTimers func now s =
     fire func
       (sort_key (\<lambda>t. fst (snd t)) (filter (\<lambda>t. fst (snd t) \<le> now) (pending (fst s)))) s"

text \<open>Calls of the debounced function, each with the time it is made at, in order.\<close>

fun debouncedCalls ::
  "('a \<Rightarrow> world \<Rightarrow> world) \<Rightarrow> nat \<Rightarrow> (nat \<times> 'a) list \<Rightarrow> 'a debounced \<times> world \<Rightarrow>
   'a debounced \<times> world" where
  "debouncedCalls func wait [] s = s"
| "debouncedCalls func wait ((now, args) # rest) s =
     debouncedCalls func wait rest
       (executedFunction wait now args (fst (runTimers func now s)), snd (runTimers func now s))"

text \<open>
  \<open>FirebaseService.updateParticipantStatus\<close> is \<open>debounce\<close> of the status write with a wait
  of 500 ms. \<open>presence oc calls finish w\<close> is the world at time \<open>finish\<close> after the given
  calls, starting with no timer set; \<open>oc\<close> is what the store does with a write.
\<close>

definition statusWrite :: "outcome \<Rightarrow> string \<times> string \<times> string \<Rightarrow> world \<Rightarrow> world" where
  "statusWrite oc args w =
     (case args of (sessionCode, participantId, status) \<Rightarrow>
        snd (writeParticipantStatus oc sessionCode participantId status w))"

definition newDebounced :: "'a debounced" where
  "newDebounced = \<lparr>timeout = None, pending = [], nextId = 0\<rparr>"

definition presence ::
  "outcome \<Rightarrow> (nat \<times> string \<times> string \<times> string) list \<Rightarrow> nat \<Rightarrow> world \<Rightarrow> world" where
  "presence oc calls finish w =
     snd (runTimers (statusWrite oc) finish
       (debouncedCalls (statusWrite oc) 500 calls (newDebounced, w)))"

definition statusSet :: "string \<times> string \<times> string \<Rightarrow> storeWrite" where
  "statusSet args =
     (case args of (sessionCode, participantId, status) \<Rightarrow>
        Set (ref (''sessions/'' @ sessionCode @ ''/participants/'' @ participantId @ ''/status''))
          (JStr status))"

text \<open>
  Between the calls of one window the closure has at most one timer pending, the one its
  variable \<open>timeout\<close> names, and that timer is not due before the window ends.
\<close>

definition oneTimer :: "nat \<Rightarrow> 'a debounced \<Rightarrow> bool" where
  "oneTimer bound d \<longleftrightarrow>
     pending d = [] \<or>
     (\<exists>i due args. pending d = [(i, due, args)] \<and> timeout d = Some i \<and> bound \<le> due)"

section \<open>The serverless proxies\<close>

text \<open>
  The request a handler is given: the method, the \<open>content-type\<close> header and the body,
  either of which may be missing. \<open>process.env.OPENAI_API_KEY\<close> is a parameter of the
  handlers.
\<close>

record event =
  httpMethod :: string
  contentType :: "string option"
  body :: "string option"
































section \<open>Properties of the validators\<close>

lemma dropWhile_none: "\<forall>c\<in>set xs. \<not> P c \<Longrightarrow> dropWhile P xs = xs"
  by (cases xs) simp_all

lemma trim_no_space:
  assumes "\<forall>c\<in>set s. \<not> isWhiteSpace c"
  shows "trim s = s"
proof -
  have a: "dropWhile isWhiteSpace s = s"
    using assms by (rule dropWhile_none)
  have b: "dropWhile isWhiteSpace (rev s) = rev s"
    using assms by (intro dropWhile_none) simp
  show ?thesis by (simp add: trim_def a b)
qed

lemma codeChar_not_space: "isCodeChar c \<Longrightarrow> \<not> isWhiteSpace c"
  by (auto simp: isCodeChar_def isWhiteSpace_def Let_def)

lemma codeChar_upper: "isCodeChar c \<Longrightarrow> upperUnit c = [c]"
  by (auto simp: isCodeChar_def upperUnit_def Let_def)

lemma toUpperCase_codeChars:
  "\<forall>c\<in>set s. isCodeChar c \<Longrightarrow> toUpperCase s = s"
  by (induction s) (simp_all add: toUpperCase_def codeChar_upper)

lemma sanitizeRoomCode_fixed:
  assumes "\<forall>c\<in>set s. isCodeChar c"
  shows "sanitizeRoomCode s = s"
proof -
  have "trim s = s"
    using assms by (intro trim_no_space) (blast dest: codeChar_not_space)
  moreover have "toUpperCase s = s"
    using assms by (rule toUpperCase_codeChars)
  moreover have "filter isCodeChar s = s"
    using assms by (simp add: filter_id_conv)
  ultimately show ?thesis by (simp add: sanitizeRoomCode_def)
qed

lemma validateRoomCode_Inr:
  "validateRoomCode s = Inr t \<longleftrightarrow>
     s \<noteq> [] \<and> sanitizeRoomCode s = t \<and> length t = SESSION_CODE_LENGTH"
  unfolding validateRoomCode_def Let_def by (cases "s = []") auto

lemma validateRoomCode_chars:
  assumes "validateRoomCode s = Inr t"
  shows "\<forall>c\<in>set t. isCodeChar c"
  using assms by (auto simp: validateRoomCode_Inr sanitizeRoomCode_def)

lemma validateRoomCode_idem:
  assumes "validateRoomCode s = Inr t"
  shows "validateRoomCode t = Inr t"
proof -
  have len: "length t = SESSION_CODE_LENGTH"
    using assms by (simp add: validateRoomCode_Inr)
  then have "t \<noteq> []" by (auto simp: SESSION_CODE_LENGTH_def)
  moreover have "sanitizeRoomCode t = t"
    using validateRoomCode_chars [OF assms] by (rule sanitizeRoomCode_fixed)
  ultimately show ?thesis using len by (simp add: validateRoomCode_Inr)
qed

text \<open>
  Claim C3. The room-code validator strips before it checks the length, and re-applying
  it to its own output returns that output (\<open>validateRoomCode_idem\<close>). The name validator
  checks the length of the trimmed and truncated name and strips afterwards, so what it
  returns can be shorter than \<open>MIN_NAME_LENGTH\<close>: it accepts \<open>a!\<close> and returns the
  one-character name \<open>a\<close>, which it rejects when applied again with the message that a
  name must have at least 2 characters, and for \<open><>\<close> it returns the empty string.
\<close>

theorem validateParticipantName_below_minimum:
  "validateParticipantName ''a!'' = Inr ''a'' \<and>
   length ''a'' < MIN_NAME_LENGTH \<and>
   validateParticipantName ''a'' = Inl ''Name must be at least 2 characters'' \<and>
   validateParticipantName ''<>'' = Inr []"
  by code_simp

section \<open>Generated codes pass validation\<close>

lemma foldl_append_concat: "foldl (\<lambda>code i. code @ f i) acc xs = acc @ concat (map f xs)"
  by (induction xs arbitrary: acc) simp_all

lemma length_chars: "length chars = 32"
  by (simp add: chars_def)

lemma chars_codeChars: "\<forall>c\<in>set chars. isCodeChar c"
  by (simp add: chars_def isCodeChar_def code_unit_def)

lemma chars_unambiguous:
  "CHR ''I'' \<notin> set chars \<and> CHR ''O'' \<notin> set chars \<and> CHR ''0'' \<notin> set chars \<and> CHR ''1'' \<notin> set chars"
  by (simp add: chars_def)

lemma draw_index:
  assumes "0 \<le> r" and "r < 1"
  shows "charAt chars \<lfloor>r * real (length chars)\<rfloor> = [chars ! nat \<lfloor>r * real (length chars)\<rfloor>]"
    and "nat \<lfloor>r * real (length chars)\<rfloor> < length chars"
proof -
  have lo: "0 \<le> \<lfloor>r * 32\<rfloor>" using assms by simp
  have "r * 32 < 32" using assms by simp
  then have hi: "\<lfloor>r * 32\<rfloor> < 32" by (simp add: floor_less_iff)
  show "charAt chars \<lfloor>r * real (length chars)\<rfloor> = [chars ! nat \<lfloor>r * real (length chars)\<rfloor>]"
    using lo hi by (simp add: charAt_def length_chars)
  show "nat \<lfloor>r * real (length chars)\<rfloor> < length chars"
    using lo hi by (simp add: length_chars nat_less_iff)
qed

lemma generateRoomCode_map:
  assumes "\<forall>i<SESSION_CODE_LENGTH. 0 \<le> random i \<and> random i < 1"
  shows "generateRoomCode random =
    map (\<lambda>i. chars ! nat \<lfloor>random i * real (length chars)\<rfloor>) [0..<SESSION_CODE_LENGTH]"
proof -
  have "concat (map (\<lambda>i. charAt chars \<lfloor>random i * real (length chars)\<rfloor>) xs) =
      map (\<lambda>i. chars ! nat \<lfloor>random i * real (length chars)\<rfloor>) xs"
    if "set xs \<subseteq> {..<SESSION_CODE_LENGTH}" for xs
    using that assms by (induction xs) (simp_all add: draw_index(1))
  from this [of "[0..<SESSION_CODE_LENGTH]"] show ?thesis
    by (simp add: generateRoomCode_def foldl_append_concat subset_iff)
qed

lemma generateRoomCode_in_chars:
  assumes "\<forall>i<SESSION_CODE_LENGTH. 0 \<le> random i \<and> random i < 1"
  shows "set (generateRoomCode random) \<subseteq> set chars"
  using assms by (auto simp: generateRoomCode_map draw_index(2))

text \<open>
  Claim C10. When every draw of \<open>Math.random()\<close> lies in \<open>[0, 1)\<close>, the generated code
  has exactly \<open>SESSION_CODE_LENGTH\<close> characters, all from the alphabet, which has neither
  \<open>I\<close>, \<open>O\<close>, \<open>0\<close> nor \<open>1\<close>, and \<open>validateRoomCode\<close> accepts it and returns it unchanged.
\<close>

theorem generateRoomCode_validates:
  assumes "\<forall>i<SESSION_CODE_LENGTH. 0 \<le> random i \<and> random i < 1"
  shows "length (generateRoomCode random) = SESSION_CODE_LENGTH \<and>
    set (generateRoomCode random) \<subseteq> set chars \<and>
    set (generateRoomCode random) \<inter> {CHR ''I'', CHR ''O'', CHR ''0'', CHR ''1''} = {} \<and>
    sanitizeRoomCode (generateRoomCode random) = generateRoomCode random \<and>
    validateRoomCode (generateRoomCode random) = Inr (generateRoomCode random)"
proof -
  let ?code = "generateRoomCode random"
  have len: "length ?code = SESSION_CODE_LENGTH"
    by (simp add: generateRoomCode_map [OF assms])
  have sub: "set ?code \<subseteq> set chars"
    using assms by (rule generateRoomCode_in_chars)
  have amb: "set ?code \<inter> {CHR ''I'', CHR ''O'', CHR ''0'', CHR ''1''} = {}"
    using sub chars_unambiguous by blast
  have fixed: "sanitizeRoomCode ?code = ?code"
    using sub chars_codeChars by (intro sanitizeRoomCode_fixed) blast
  have "?code \<noteq> []"
    using len by (auto simp: SESSION_CODE_LENGTH_def)
  then have "validateRoomCode ?code = Inr ?code"
    using len fixed by (simp add: validateRoomCode_Inr)
  with len sub amb fixed show ?thesis by blast
qed

theorem generateRoomCode_validates_witness:
  "generateRoomCode (\<lambda>i. real i / 8) = ''AEJNSW'' \<and>
   length ''AEJNSW'' = SESSION_CODE_LENGTH \<and>
   validateRoomCode ''AEJNSW'' = Inr ''AEJNSW''"
proof -
  have h: "\<forall>i<SESSION_CODE_LENGTH. (0::real) \<le> real i / 8 \<and> real i / 8 < 1"
    by (simp add: SESSION_CODE_LENGTH_def)
  have g: "generateRoomCode (\<lambda>i. real i / 8) = ''AEJNSW''"
    by (simp add: generateRoomCode_def SESSION_CODE_LENGTH_def upt_rec charAt_def chars_def)
  show ?thesis
    using h g generateRoomCode_validates [OF h] by simp
qed

section \<open>Reading and writing the tree\<close>

lemma map_of_others: "k' \<noteq> k \<Longrightarrow> map_of (filter (\<lambda>kv. fst kv \<noteq> k) fs) k' = map_of fs k'"
  by (induction fs) auto

lemma map_of_others_same: "map_of (filter (\<lambda>kv. fst kv \<noteq> k) fs) k = None"
  by (induction fs) auto

lemma map_of_Nil_filter:
  "filter (\<lambda>kv. fst kv \<noteq> k) fs = [] \<Longrightarrow> k' \<noteq> k \<Longrightarrow> map_of fs k' = None"
  by (induction fs) (auto split: if_splits)

lemma child_set_child: "child (set_child k x j) k' = (if k' = k then x else child j k')"
  by (auto simp: set_child_def child_def properties_def Let_def map_of_others map_of_others_same
      map_of_Nil_filter map_add_def split: option.splits)

lemma get_at_set_at: "get_at p (set_at p v j) = v"
  by (induction p arbitrary: j) (simp_all add: child_set_child)

section \<open>Joining a session\<close>

lemmas async_defs = succeed_def raise_def await_def try_catch_def effect_def

lemma sessionExists_eq:
  "sessionExists rd code w =
     (Inr (rd = Resolves \<and> get_at (ref (''sessions/'' @ code)) (tree w) \<noteq> JNull), w)"
  by (cases rd) (simp_all add: sessionExists_def store_once_def async_defs)

lemma showError_fields:
  "tree (showError m w) = tree w"
  "writes (showError m w) = writes w"
  "transcripts (showError m w) = transcripts w"
  "requests (showError m w) = requests w"
  "toasts (showError m w) = toasts w @ [(''error'', m)]"
  by (simp_all add: showError_def showToast_def trackEvent_def)

lemma trackEvent_fields:
  "tree (trackEvent c a l w) = tree w"
  "writes (trackEvent c a l w) = writes w"
  "transcripts (trackEvent c a l w) = transcripts w"
  "requests (trackEvent c a l w) = requests w"
  "toasts (trackEvent c a l w) = toasts w"
  by (simp_all add: trackEvent_def)

lemma joinSession_absent:
  assumes "fst (sessionExists rd code w) = Inr False"
  shows "joinSession rd wr code pid name w =
    (Inr (JBool False), showError ''Workshop session not found'' w)"
  using assms by (simp add: joinSession_def sessionExists_eq async_defs)

lemma joinSession_present:
  assumes "fst (sessionExists rd code w) = Inr True"
  shows "joinSession rd Resolves code pid name w =
    (Inr (JBool True), trackEvent ''session'' ''join'' code
       (w\<lparr>writes := writes w @
            [Set (ref (''sessions/'' @ code @ ''/participants/'' @ pid)) (storedParticipant pid name)],
          tree := set_at (ref (''sessions/'' @ code @ ''/participants/'' @ pid))
            (storedParticipant pid name) (tree w)\<rparr>))"
  using assms
  by (simp add: joinSession_def sessionExists_eq async_defs store_set_def node_def
      storedParticipant_def)

lemma joinSession_rejected:
  assumes "fst (sessionExists rd code w) = Inr True"
  shows "joinSession rd (Rejects e) code pid name w =
    (Inr (JBool False), showError ''Failed to join workshop session''
       (w\<lparr>writes := writes w @
            [Set (ref (''sessions/'' @ code @ ''/participants/'' @ pid)) (storedParticipant pid name)]\<rparr>))"
  using assms
  by (simp add: joinSession_def sessionExists_eq async_defs store_set_def node_def
      storedParticipant_def)

text \<open>
  Claim C1, as amended. \<open>joinSession\<close> first runs the existence check, which returns a
  boolean and changes nothing. If the check reports the session absent, \<open>joinSession\<close>
  shows the error \<open>Workshop session not found\<close>, returns \<open>false\<close> and issues no write:
  store and write log are as before. If the check reports the session present and the
  store accepts the write, the participant record is stored under
  \<open>sessions/{code}/participants/{id}\<close> and the result is \<open>true\<close>. If the check reports the
  session present and the store rejects the write, \<open>joinSession\<close> shows the error
  \<open>Failed to join workshop session\<close>, returns \<open>false\<close> and leaves the store as it was.
\<close>

theorem joinSession_checks_existence:
  fixes rd wr :: outcome and code pid name :: string and w :: world
  defines "path \<equiv> ref (''sessions/'' @ code @ ''/participants/'' @ pid)"
  defines "absent \<equiv> joinSession rd wr code pid name w"
  defines "accepted \<equiv> joinSession rd Resolves code pid name w"
  defines "rejected \<equiv> \<lambda>e. joinSession rd (Rejects e) code pid name w"
  shows "(\<exists>b. sessionExists rd code w = (Inr b, w)) \<and>
    (fst (sessionExists rd code w) = Inr False \<longrightarrow>
       fst absent = Inr (JBool False) \<and>
       toasts (snd absent) = toasts w @ [(''error'', ''Workshop session not found'')] \<and>
       writes (snd absent) = writes w \<and> tree (snd absent) = tree w) \<and>
    (fst (sessionExists rd code w) = Inr True \<longrightarrow>
       fst accepted = Inr (JBool True) \<and>
       toasts (snd accepted) = toasts w \<and>
       writes (snd accepted) = writes w @ [Set path (storedParticipant pid name)] \<and>
       tree (snd accepted) = set_at path (storedParticipant pid name) (tree w) \<and>
       get_at path (tree (snd accepted)) = storedParticipant pid name) \<and>
    (fst (sessionExists rd code w) = Inr True \<longrightarrow>
       (\<forall>e. fst (rejected e) = Inr (JBool False) \<and>
         toasts (snd (rejected e)) = toasts w @ [(''error'', ''Failed to join workshop session'')] \<and>
         tree (snd (rejected e)) = tree w))"
proof -
  have ex: "\<exists>b. sessionExists rd code w = (Inr b, w)"
    by (simp add: sessionExists_eq)
  have a: "fst (sessionExists rd code w) = Inr False \<longrightarrow>
       fst absent = Inr (JBool False) \<and>
       toasts (snd absent) = toasts w @ [(''error'', ''Workshop session not found'')] \<and>
       writes (snd absent) = writes w \<and> tree (snd absent) = tree w"
    by (simp add: absent_def joinSession_absent showError_fields)
  have b: "fst (sessionExists rd code w) = Inr True \<longrightarrow>
       fst accepted = Inr (JBool True) \<and>
       toasts (snd accepted) = toasts w \<and>
       writes (snd accepted) = writes w @ [Set path (storedParticipant pid name)] \<and>
       tree (snd accepted) = set_at path (storedParticipant pid name) (tree w) \<and>
       get_at path (tree (snd accepted)) = storedParticipant pid name"
    by (simp add: accepted_def path_def joinSession_present trackEvent_fields get_at_set_at)
  have c: "fst (sessionExists rd code w) = Inr True \<longrightarrow>
       (\<forall>e. fst (rejected e) = Inr (JBool False) \<and>
         toasts (snd (rejected e)) = toasts w @ [(''error'', ''Failed to join workshop session'')] \<and>
         tree (snd (rejected e)) = tree w)"
    by (simp add: rejected_def joinSession_rejected showError_fields)
  from ex a b c show ?thesis by blast
qed

theorem joinSession_checks_existence_witness:
  "fst (sessionExists Resolves ''XYZ789'' sessionWorld) = Inr False \<and>
   fst (joinSession Resolves Resolves ''XYZ789'' ''p1'' ''Bob'' sessionWorld) = Inr (JBool False) \<and>
   tree (snd (joinSession Resolves Resolves ''XYZ789'' ''p1'' ''Bob'' sessionWorld)) = tree sessionWorld \<and>
   fst (sessionExists Resolves ''ABC123'' sessionWorld) = Inr True \<and>
   fst (joinSession Resolves Resolves ''ABC123'' ''p1'' ''Bob'' sessionWorld) = Inr (JBool True) \<and>
   get_at (ref ''sessions/ABC123/participants/p1'')
     (tree (snd (joinSession Resolves Resolves ''ABC123'' ''p1'' ''Bob'' sessionWorld))) =
     storedParticipant ''p1'' ''Bob'' \<and>
   fst (joinSession Resolves (Rejects (Error ''Error'' ''PERMISSION_DENIED'')) ''ABC123'' ''p1'' ''Bob''
     sessionWorld) = Inr (JBool False)"
proof -
  have absent: "fst (sessionExists Resolves ''XYZ789'' sessionWorld) = Inr False"
    by code_simp
  have present: "fst (sessionExists Resolves ''ABC123'' sessionWorld) = Inr True"
    by code_simp
  show ?thesis
    using absent present
      joinSession_checks_existence [of Resolves "''XYZ789''" sessionWorld Resolves "''p1''" "''Bob''"]
      joinSession_checks_existence [of Resolves "''ABC123''" sessionWorld Resolves "''p1''" "''Bob''"]
    by (simp add: get_at_set_at)
qed

text \<open>
  Claim C1 as stated fails where the session exists and the store rejects the write:
  \<open>joinSession\<close> returns \<open>false\<close> and no participant record is stored.
\<close>

theorem joinSession_existing_session_rejected_write:
  "fst (sessionExists Resolves ''ABC123'' sessionWorld) = Inr True \<and>
   fst (joinSession Resolves (Rejects (Error ''Error'' ''PERMISSION_DENIED'')) ''ABC123'' ''p1'' ''Bob''
     sessionWorld) = Inr (JBool False) \<and>
   get_at [''sessions'', ''ABC123'', ''participants'', ''p1'']
     (tree (snd (joinSession Resolves (Rejects (Error ''Error'' ''PERMISSION_DENIED'')) ''ABC123''
       ''p1'' ''Bob'' sessionWorld))) = JNull"
  by code_simp

text \<open>
  Claim C9. \<open>sessionExists\<close> returns \<open>false\<close> when the read throws, whatever the store
  holds, as it does when the read succeeds and the session record is absent. So when the
  read throws, \<open>joinSession\<close> returns \<open>false\<close> and shows \<open>Workshop session not found\<close>,
  and its result and effects on a code that does not exist are the same whether the read
  succeeds or throws.
\<close>

theorem sessionExists_false_on_read_error:
  "sessionExists (Rejects e) code w = (Inr False, w) \<and>
   (get_at (ref (''sessions/'' @ code)) (tree w) = JNull \<longrightarrow>
      sessionExists Resolves code w = (Inr False, w)) \<and>
   joinSession (Rejects e) wr code pid name w =
     (Inr (JBool False), showError ''Workshop session not found'' w) \<and>
   (get_at (ref (''sessions/'' @ code)) (tree w) = JNull \<longrightarrow>
      joinSession Resolves wr code pid name w = joinSession (Rejects e) wr code pid name w)"
  by (simp add: sessionExists_eq joinSession_absent)

theorem sessionExists_false_on_read_error_witness:
  "get_at (ref (''sessions/'' @ ''XYZ789'')) (tree sessionWorld) = JNull \<and>
   get_at (ref (''sessions/'' @ ''ABC123'')) (tree sessionWorld) \<noteq> JNull \<and>
   sessionExists (Rejects (Error ''Error'' ''timeout'')) ''ABC123'' sessionWorld =
     (Inr False, sessionWorld) \<and>
   sessionExists Resolves ''XYZ789'' sessionWorld = (Inr False, sessionWorld) \<and>
   joinSession (Rejects (Error ''Error'' ''timeout'')) Resolves ''ABC123'' ''p1'' ''Bob'' sessionWorld =
     (Inr (JBool False), showError ''Workshop session not found'' sessionWorld) \<and>
   joinSession Resolves Resolves ''XYZ789'' ''p1'' ''Bob'' sessionWorld =
     (Inr (JBool False), showError ''Workshop session not found'' sessionWorld)"
proof -
  have absent: "get_at (ref (''sessions/'' @ ''XYZ789'')) (tree sessionWorld) = JNull"
    by code_simp
  have present: "get_at (ref (''sessions/'' @ ''ABC123'')) (tree sessionWorld) \<noteq> JNull"
    by code_simp
  show ?thesis
    using absent present
      sessionExists_false_on_read_error
        [of "Error ''Error'' ''timeout''" "''ABC123''" sessionWorld Resolves "''p1''" "''Bob''"]
      sessionExists_false_on_read_error
        [of "Error ''Error'' ''timeout''" "''XYZ789''" sessionWorld Resolves "''p1''" "''Bob''"]
    by simp
qed

section \<open>Write operations catch a rejected write\<close>

lemma createSession_result:
  "fst (createSession Resolves c f n w) = Inr (JBool True)"
  "fst (createSession (Rejects e) c f n w) = Inr (JBool False)"
  by (simp_all add: createSession_def store_set_def async_defs Let_def)

lemma createSession_total: "\<exists>b. fst (createSession oc c f n w) = Inr (JBool b)"
  by (cases oc) (auto simp: createSession_result)

lemma joinSession_rejects: "fst (joinSession rd (Rejects e) c p n w) = Inr (JBool False)"
  by (simp add: joinSession_def sessionExists_eq store_set_def async_defs Let_def)

lemma joinSession_resolves:
  "fst (joinSession rd Resolves c p n w) = Inr (JBool (fst (sessionExists rd c w) = Inr True))"
  by (simp add: joinSession_def sessionExists_eq store_set_def async_defs Let_def)

lemma joinSession_total: "\<exists>b. fst (joinSession rd wr c p n w) = Inr (JBool b)"
  by (cases wr) (auto simp: joinSession_rejects joinSession_resolves)

lemma updatePhase_result:
  "fst (updatePhase Resolves c ph w) = Inr (JBool True)"
  "fst (updatePhase (Rejects e) c ph w) = Inr (JBool False)"
  by (simp_all add: updatePhase_def store_set_def async_defs Let_def)

lemma updatePhase_total: "\<exists>b. fst (updatePhase oc c ph w) = Inr (JBool b)"
  by (cases oc) (auto simp: updatePhase_result)

lemma updateTimer_result:
  "fst (updateTimer Resolves c a d w) = Inr (JBool True)"
  "fst (updateTimer (Rejects e) c a d w) = Inr (JBool False)"
  by (simp_all add: updateTimer_def store_update_def async_defs Let_def)

lemma updateTimer_total: "\<exists>b. fst (updateTimer oc c a d w) = Inr (JBool b)"
  by (cases oc) (auto simp: updateTimer_result)

lemma endSession_result:
  "fst (endSession Resolves c w) = Inr (JBool True)"
  "fst (endSession (Rejects e) c w) = Inr (JBool False)"
  by (simp_all add: endSession_def store_set_def async_defs Let_def)

lemma endSession_total: "\<exists>b. fst (endSession oc c w) = Inr (JBool b)"
  by (cases oc) (auto simp: endSession_result)

lemma saveThemes_result:
  "fst (saveThemes Resolves c t th sy w) = Inr (JBool True)"
  "fst (saveThemes (Rejects e) c t th sy w) = Inr (JBool False)"
  by (simp_all add: saveThemes_def store_set_def async_defs Let_def)

lemma saveThemes_total: "\<exists>b. fst (saveThemes oc c t th sy w) = Inr (JBool b)"
  by (cases oc) (auto simp: saveThemes_result)

lemma saveTranscript_result:
  "fst (saveTranscript Resolves k c t ph tx d w) = Inr (JStr k)"
  "fst (saveTranscript (Rejects e) k c t ph tx d w) = Inr JNull"
  by (simp_all add: saveTranscript_def store_push_set_def async_defs Let_def)

lemma saveTranscript_total:
  "\<exists>v. fst (saveTranscript oc k c t ph tx d w) = Inr v \<and> (v = JStr k \<or> v = JNull)"
  by (cases oc) (auto simp: saveTranscript_result)

text \<open>
  Claim C2, as amended. No write operation of the adapter throws: whatever the store does
  with the write, the operation returns a value. \<open>createSession\<close>, \<open>joinSession\<close>,
  \<open>updatePhase\<close>, \<open>updateTimer\<close>, \<open>endSession\<close> and \<open>saveThemes\<close> return a boolean, which
  is \<open>false\<close> when the store rejects the write. \<open>saveTranscript\<close> returns the key of the
  new record when the write is accepted and \<open>null\<close> when it is rejected.
\<close>

theorem write_operations_catch_rejection:
  "(\<exists>b. fst (createSession oc c f n w) = Inr (JBool b)) \<and>
   fst (createSession (Rejects e) c f n w) = Inr (JBool False) \<and>
   (\<exists>b. fst (joinSession rd oc c p n w) = Inr (JBool b)) \<and>
   fst (joinSession rd (Rejects e) c p n w) = Inr (JBool False) \<and>
   (\<exists>b. fst (updatePhase oc c ph w) = Inr (JBool b)) \<and>
   fst (updatePhase (Rejects e) c ph w) = Inr (JBool False) \<and>
   (\<exists>b. fst (updateTimer oc c a d w) = Inr (JBool b)) \<and>
   fst (updateTimer (Rejects e) c a d w) = Inr (JBool False) \<and>
   (\<exists>b. fst (endSession oc c w) = Inr (JBool b)) \<and>
   fst (endSession (Rejects e) c w) = Inr (JBool False) \<and>
   (\<exists>b. fst (saveThemes oc c t th sy w) = Inr (JBool b)) \<and>
   fst (saveThemes (Rejects e) c t th sy w) = Inr (JBool False) \<and>
   (\<exists>v. fst (saveTranscript oc k c t ph tx d w) = Inr v \<and> (v = JStr k \<or> v = JNull)) \<and>
   fst (saveTranscript Resolves k c t ph tx d w) = Inr (JStr k) \<and>
   fst (saveTranscript (Rejects e) k c t ph tx d w) = Inr JNull"
  by (intro conjI createSession_total createSession_result joinSession_total joinSession_rejects
      updatePhase_total updatePhase_result updateTimer_total updateTimer_result endSession_total
      endSession_result saveThemes_total saveThemes_result saveTranscript_total
      saveTranscript_result)

theorem write_operations_catch_rejection_witness:
  "fst (createSession (Rejects (Error ''Error'' ''PERMISSION_DENIED'')) ''ABC123'' ''f1'' ''Fay''
     sessionWorld) = Inr (JBool False) \<and>
   fst (endSession (Rejects (Error ''Error'' ''PERMISSION_DENIED'')) ''ABC123'' sessionWorld) =
     Inr (JBool False) \<and>
   fst (saveTranscript (Rejects (Error ''Error'' ''PERMISSION_DENIED'')) ''k1'' ''ABC123'' 1 0
     ''hello'' 5 sessionWorld) = Inr JNull"
  using write_operations_catch_rejection
    [of Resolves "''ABC123''" "''f1''" "''Fay''" sessionWorld "Error ''Error'' ''PERMISSION_DENIED''"
      Resolves "''p1''" 0 False 5 1 JNull JNull "''k1''" "''hello''"]
  by simp

text \<open>
  Claim C2 as stated fails for \<open>saveTranscript\<close>, whose result on success is the key of the
  new record, a string, not a boolean.
\<close>

theorem saveTranscript_returns_key:
  "fst (saveTranscript Resolves ''k1'' ''ABC123'' 1 0 ''hello'' 5 sessionWorld) = Inr (JStr ''k1'') \<and>
   \<not> isBoolean (JStr ''k1'')"
  by code_simp

section \<open>Paths\<close>

lemma split_on_nonempty: "split_on sep s \<noteq> []"
  by (induction s) (auto split: list.splits)

lemma split_on_no_sep: "sep \<notin> set a \<Longrightarrow> split_on sep a = [a]"
  by (induction a) auto

lemma split_on_piece:
  "sep \<notin> set a \<Longrightarrow> split_on sep (a @ sep # rest) = a # split_on sep rest"
  by (induction a) auto

lemma ref_key: "isKey k \<Longrightarrow> ref k = [k]"
  by (simp add: ref_def isKey_def split_on_no_sep)

lemma ref_piece: "isKey k \<Longrightarrow> ref (k @ CHR ''/'' # rest) = k # ref rest"
  by (simp add: ref_def isKey_def split_on_piece)

lemma isKey_literals:
  "isKey ''sessions''" "isKey ''status''" "isKey ''phase''" "isKey ''participants''"
  "isKey ''timerActive''" "isKey ''timerDuration''" "isKey ''themes''"
  by (simp_all add: isKey_def)

lemma ref_session:
  assumes "isKey code"
  shows "ref (''sessions/'' @ code) = [''sessions'', code]"
proof -
  have "''sessions/'' @ code = ''sessions'' @ CHR ''/'' # code" by simp
  then show ?thesis
    using assms by (simp only: ref_piece [OF isKey_literals(1)] ref_key)
qed

lemma ref_session_field:
  assumes "isKey code" and "isKey name"
  shows "ref (''sessions/'' @ code @ ''/'' @ name) = [''sessions'', code, name]"
proof -
  have "''sessions/'' @ code @ ''/'' @ name = ''sessions'' @ CHR ''/'' # (code @ CHR ''/'' # name)"
    by simp
  then show ?thesis
    using assms by (simp only: ref_piece [OF isKey_literals(1)] ref_piece ref_key)
qed

lemma ref_participant:
  assumes "isKey code"
  shows "ref (''sessions/'' @ code @ ''/participants/'' @ pid) =
    [''sessions'', code, ''participants''] @ ref pid"
proof -
  have eq: "''sessions/'' @ code @ ''/participants/'' @ pid =
      ''sessions'' @ CHR ''/'' # (code @ CHR ''/'' # (''participants'' @ CHR ''/'' # pid))"
    by simp
  have "ref (''sessions'' @ CHR ''/'' # (code @ CHR ''/'' # (''participants'' @ CHR ''/'' # pid))) =
      ''sessions'' # code # ''participants'' # ref pid"
    using assms
    by (simp only: ref_piece [OF isKey_literals(1)] ref_piece [OF isKey_literals(4)] ref_piece)
  then show ?thesis
    unfolding eq by simp
qed

lemmas ref_paths =
  ref_session [simplified] ref_session_field [simplified] ref_participant [simplified]

lemma get_at_set_at_diverge:
  "a \<noteq> b \<Longrightarrow> get_at (r @ a # p) (set_at (r @ b # q) v j) = get_at (r @ a # p) j"
  by (induction r arbitrary: j) (simp_all add: child_set_child)

section \<open>The status of an ended session\<close>

lemma createSession_tree:
  "tree (snd (createSession (Rejects e) c f n w)) = tree w"
  "\<exists>v. tree (snd (createSession Resolves c f n w)) = set_at (ref (''sessions/'' @ c)) v (tree w)"
  by (simp_all add: createSession_def store_set_def async_defs Let_def trackEvent_fields
      showError_fields) blast

lemma joinSession_tree:
  "tree (snd (joinSession rd wr c p n w)) = tree w \<or>
   (\<exists>v. tree (snd (joinSession rd wr c p n w)) =
      set_at (ref (''sessions/'' @ c @ ''/participants/'' @ p)) v (tree w))"
  by (cases wr)
    (auto simp: joinSession_def sessionExists_eq store_set_def async_defs Let_def
      trackEvent_fields showError_fields)

lemma updatePhase_tree:
  "tree (snd (updatePhase (Rejects e) c ph w)) = tree w"
  "tree (snd (updatePhase Resolves c ph w)) =
     set_at (ref (''sessions/'' @ c @ ''/'' @ ''phase'')) (JNum ph) (tree w)"
  by (simp_all add: updatePhase_def store_set_def async_defs Let_def trackEvent_fields)

lemma updateTimer_tree:
  "tree (snd (updateTimer (Rejects e) c a d w)) = tree w"
  "tree (snd (updateTimer Resolves c a d w)) =
     set_at (ref (''sessions/'' @ c) @ [''timerDuration'']) (JNum d)
       (set_at (ref (''sessions/'' @ c) @ [''timerActive'']) (JBool a) (tree w))"
  by (simp_all add: updateTimer_def store_update_def update_at_def async_defs Let_def)

lemma endSession_tree:
  "tree (snd (endSession (Rejects e) c w)) = tree w"
  "tree (snd (endSession Resolves c w)) =
     set_at (ref (''sessions/'' @ c @ ''/'' @ ''status'')) (JStr ''ended'') (tree w)"
  by (simp_all add: endSession_def store_set_def async_defs Let_def trackEvent_fields)

lemma sessionField_status:
  "isKey code \<Longrightarrow> sessionField code ''status'' w = get_at [''sessions'', code, ''status''] (tree w)"
  using ref_session_field [of code "''status''"] by (simp add: sessionField_def isKey_literals)

lemma perform_keeps_ended:
  assumes code: "isKey code"
    and op: "isKey (opCode op)" "\<not> recreates code op"
    and ended: "sessionField code ''status'' w = JStr ''ended''"
  shows "sessionField code ''status'' (perform op w) = JStr ''ended''"
proof (cases op)
  case (CreateSession oc c f n)
  show ?thesis
  proof (cases oc)
    case Resolves
    with CreateSession op have "c \<noteq> code" by auto
    moreover obtain v where
      "tree (snd (createSession Resolves c f n w)) = set_at (ref (''sessions/'' @ c)) v (tree w)"
      using createSession_tree(2) by blast
    ultimately show ?thesis
      using CreateSession Resolves code op(1) ended
      by (auto simp: sessionField_status ref_paths child_set_child)
  next
    case (Rejects e)
    then show ?thesis
      using CreateSession ended by (simp add: sessionField_def createSession_tree)
  qed
next
  case (JoinSession rd wr c p n)
  from joinSession_tree [of rd wr c p n w] show ?thesis
  proof
    assume "tree (snd (joinSession rd wr c p n w)) = tree w"
    then show ?thesis
      using JoinSession ended by (simp add: sessionField_def)
  next
    assume "\<exists>v. tree (snd (joinSession rd wr c p n w)) =
      set_at (ref (''sessions/'' @ c @ ''/participants/'' @ p)) v (tree w)"
    then obtain v where "tree (snd (joinSession rd wr c p n w)) =
      set_at (ref (''sessions/'' @ c @ ''/participants/'' @ p)) v (tree w)" ..
    then show ?thesis
      using JoinSession code op(1) ended
      by (auto simp: sessionField_status ref_paths child_set_child)
  qed
next
  case (UpdatePhase oc c ph)
  then show ?thesis
    using code op(1) ended
    by (cases oc)
      (auto simp: sessionField_status updatePhase_tree ref_paths isKey_literals
        child_set_child)
next
  case (UpdateTimer oc c a d)
  then show ?thesis
    using code op(1) ended
    by (cases oc)
      (auto simp: sessionField_status updateTimer_tree ref_paths child_set_child)
next
  case (EndSession oc c)
  show ?thesis
  proof (cases "oc = Resolves \<and> c = code")
    case True
    then show ?thesis
      using EndSession code
      by (simp add: sessionField_status endSession_tree ref_paths isKey_literals
          child_set_child)
  next
    case False
    then show ?thesis
      using EndSession code op(1) ended
      by (cases oc)
        (auto simp: sessionField_status endSession_tree ref_paths isKey_literals
          child_set_child)
  qed
qed

lemma performAll_keeps_ended:
  assumes "isKey code"
    and "\<forall>op\<in>set ops. isKey (opCode op) \<and> \<not> recreates code op"
    and "sessionField code ''status'' w = JStr ''ended''"
  shows "sessionField code ''status'' (performAll ops w) = JStr ''ended''"
  using assms(2,3)
proof (induction ops arbitrary: w)
  case Nil
  then show ?case by (simp add: performAll_def)
next
  case (Cons op ops)
  have "sessionField code ''status'' (perform op w) = JStr ''ended''"
    using Cons.prems assms(1) by (intro perform_keeps_ended) simp_all
  then have "sessionField code ''status'' (performAll ops (perform op w)) = JStr ''ended''"
    using Cons.prems by (intro Cons.IH) simp_all
  then show ?case by (simp add: performAll_def)
qed

lemma validateRoomCode_isKey:
  assumes "validateRoomCode s = Inr t"
  shows "isKey t"
proof -
  have "length t = SESSION_CODE_LENGTH"
    using assms by (simp add: validateRoomCode_Inr)
  moreover have "\<forall>c\<in>set t. isCodeChar c"
    using assms by (rule validateRoomCode_chars)
  moreover have "\<not> isCodeChar CHR ''/''"
    by (simp add: isCodeChar_def code_unit_def)
  ultimately show ?thesis
    by (auto simp: isKey_def SESSION_CODE_LENGTH_def)
qed

lemma generateRoomCode_isKey:
  assumes "\<forall>i<SESSION_CODE_LENGTH. 0 \<le> random i \<and> random i < 1"
  shows "isKey (generateRoomCode random)"
proof -
  have "length (generateRoomCode random) = SESSION_CODE_LENGTH"
    by (simp add: generateRoomCode_map [OF assms])
  moreover have "set (generateRoomCode random) \<subseteq> set chars"
    using assms by (rule generateRoomCode_in_chars)
  moreover have "CHR ''/'' \<notin> set chars"
    by (simp add: chars_def)
  ultimately show ?thesis
    by (auto simp: isKey_def SESSION_CODE_LENGTH_def)
qed

text \<open>
  Claim C4, as amended. Codes are single path pieces, as every validated or generated code
  is. When \<open>endSession(code)\<close> is accepted it returns \<open>true\<close> and the session's status is
  \<open>ended\<close>; the status then stays \<open>ended\<close> under every later sequence of \<open>updatePhase\<close>,
  \<open>updateTimer\<close>, \<open>joinSession\<close> and \<open>endSession\<close> calls on any session and of
  \<open>createSession\<close> calls other than an accepted one on the same code. The adapter does not
  look at the status: an accepted \<open>updatePhase\<close> or \<open>updateTimer\<close> sets the phase or timer
  fields of any session, ended or not, and an accepted \<open>createSession\<close> on the same code
  stores a fresh session whose status is \<open>active\<close>.
\<close>

theorem ended_status_persists:
  assumes "isKey code"
    and "\<forall>op\<in>set ops. isKey (opCode op) \<and> \<not> recreates code op"
  shows "fst (endSession Resolves code w) = Inr (JBool True) \<and>
    sessionField code ''status'' (snd (endSession Resolves code w)) = JStr ''ended'' \<and>
    sessionField code ''status'' (performAll ops (snd (endSession Resolves code w))) = JStr ''ended'' \<and>
    sessionField code ''phase'' (snd (updatePhase Resolves code ph w)) = JNum ph \<and>
    sessionField code ''timerActive'' (snd (updateTimer Resolves code a d w)) = JBool a \<and>
    sessionField code ''timerDuration'' (snd (updateTimer Resolves code a d w)) = JNum d \<and>
    sessionField code ''status'' (snd (createSession Resolves code f n w)) = JStr ''active''"
proof -
  have ended: "sessionField code ''status'' (snd (endSession Resolves code w)) = JStr ''ended''"
    by (simp add: sessionField_def endSession_tree get_at_set_at)
  have later: "sessionField code ''status'' (performAll ops (snd (endSession Resolves code w))) =
      JStr ''ended''"
    using assms ended by (rule performAll_keeps_ended)
  have phase: "sessionField code ''phase'' (snd (updatePhase Resolves code ph w)) = JNum ph"
    by (simp add: sessionField_def updatePhase_tree get_at_set_at)
  have timer: "sessionField code ''timerActive'' (snd (updateTimer Resolves code a d w)) = JBool a"
    "sessionField code ''timerDuration'' (snd (updateTimer Resolves code a d w)) = JNum d"
    using assms(1)
    by (simp_all add: sessionField_def updateTimer_tree ref_paths isKey_literals
        child_set_child)
  have fresh: "sessionField code ''status'' (snd (createSession Resolves code f n w)) = JStr ''active''"
    using assms(1)
    by (simp add: sessionField_def createSession_def store_set_def async_defs Let_def
        trackEvent_fields ref_paths isKey_literals node_def child_set_child)
      (simp add: child_def properties_def)
  from ended later phase timer fresh show ?thesis
    by (simp add: endSession_result)
qed

theorem ended_status_persists_witness:
  "sessionField ''ABC123'' ''status''
     (performAll
        [UpdatePhase Resolves ''ABC123'' 2,
         UpdateTimer Resolves ''ABC123'' True 300,
         JoinSession Resolves Resolves ''ABC123'' ''p1'' ''Bob'',
         CreateSession Resolves ''XYZ789'' ''f2'' ''Guy'',
         EndSession Resolves ''XYZ789'',
         CreateSession (Rejects (Error ''Error'' ''PERMISSION_DENIED'')) ''ABC123'' ''f2'' ''Guy'']
        (snd (endSession Resolves ''ABC123'' sessionWorld))) = JStr ''ended''"
proof -
  have code: "isKey ''ABC123''"
    by (simp add: isKey_def)
  have ops: "\<forall>op\<in>set
        [UpdatePhase Resolves ''ABC123'' 2,
         UpdateTimer Resolves ''ABC123'' True 300,
         JoinSession Resolves Resolves ''ABC123'' ''p1'' ''Bob'',
         CreateSession Resolves ''XYZ789'' ''f2'' ''Guy'',
         EndSession Resolves ''XYZ789'',
         CreateSession (Rejects (Error ''Error'' ''PERMISSION_DENIED'')) ''ABC123'' ''f2'' ''Guy''].
      isKey (opCode op) \<and> \<not> recreates ''ABC123'' op"
    by (simp add: isKey_def)
  show ?thesis
    using ended_status_persists [OF code ops, of sessionWorld 0 False 0 "''f''" "''n''"] by simp
qed

text \<open>
  Claim C4 as stated fails: on the ended session \<open>ABC123\<close> an accepted \<open>updatePhase\<close>
  changes the phase, an accepted \<open>updateTimer\<close> changes the timer fields, and an accepted
  \<open>createSession\<close> on the same code makes the status \<open>active\<close> again.
\<close>

theorem ended_session_still_mutable:
  "sessionField ''ABC123'' ''status'' (snd (endSession Resolves ''ABC123'' sessionWorld)) =
     JStr ''ended'' \<and>
   sessionField ''ABC123'' ''phase'' (snd (endSession Resolves ''ABC123'' sessionWorld)) = JNum 0 \<and>
   sessionField ''ABC123'' ''phase''
     (performAll [UpdatePhase Resolves ''ABC123'' 2]
        (snd (endSession Resolves ''ABC123'' sessionWorld))) = JNum 2 \<and>
   sessionField ''ABC123'' ''timerActive''
     (performAll [UpdateTimer Resolves ''ABC123'' True 300]
        (snd (endSession Resolves ''ABC123'' sessionWorld))) = JBool True \<and>
   sessionField ''ABC123'' ''status''
     (performAll [CreateSession Resolves ''ABC123'' ''f2'' ''Guy'']
        (snd (endSession Resolves ''ABC123'' sessionWorld))) = JStr ''active''"
  by code_simp

section \<open>Decimal keys\<close>

lemma code_unit_digit: "d < 10 \<Longrightarrow> code_unit (digit_char d) = 48 + d"
  by (simp add: code_unit_def digit_char_def)

lemma parseInt_snoc: "parseInt (s @ [c]) = 10 * parseInt s + (code_unit c - 48)"
  by (simp add: parseInt_def)

lemma parseInt_show_nat: "parseInt (show_nat n) = n"
proof (induction n rule: show_nat.induct)
  case (1 n)
  show ?case
  proof (cases "n < 10")
    case True
    then show ?thesis
      by (simp add: show_nat.simps [of n] parseInt_def code_unit_digit)
  next
    case False
    then have "parseInt (show_nat (n div 10)) = n div 10"
      using "1.IH" by simp
    then show ?thesis
      using False by (simp add: show_nat.simps [of n] parseInt_snoc code_unit_digit)
  qed
qed

lemma show_nat_inj: "show_nat m = show_nat n \<Longrightarrow> m = n"
  by (metis parseInt_show_nat)

lemma digit_char_not_slash: "d < 10 \<Longrightarrow> digit_char d \<noteq> CHR ''/''"
  using code_unit_digit [of d] by (auto simp: code_unit_def)

lemma show_nat_no_slash: "CHR ''/'' \<notin> set (show_nat n)"
proof (induction n rule: show_nat.induct)
  case (1 n)
  show ?case
  proof (cases "n < 10")
    case True
    then show ?thesis
      by (simp add: show_nat.simps [of n] digit_char_not_slash [symmetric])
  next
    case False
    then show ?thesis
      using "1.IH" by (simp add: show_nat.simps [of n] digit_char_not_slash [symmetric])
  qed
qed

lemma isKey_table: "isKey (''table'' @ show_nat n)"
  by (simp add: isKey_def show_nat_no_slash)

lemma ref_themes:
  assumes "isKey code"
  shows "ref (''themes/'' @ code @ ''/table'' @ show_nat n) = themesPath code n"
proof -
  have eq: "''themes/'' @ code @ ''/table'' @ show_nat n =
      ''themes'' @ CHR ''/'' # (code @ CHR ''/'' # (''table'' @ show_nat n))"
    by simp
  have "ref (''themes'' @ CHR ''/'' # (code @ CHR ''/'' # (''table'' @ show_nat n))) =
      [''themes'', code, ''table'' @ show_nat n]"
    using assms isKey_table [of n]
    by (simp only: ref_piece [OF isKey_literals(7)] ref_piece ref_key)
  then show ?thesis
    unfolding eq by (simp add: themesPath_def)
qed

section \<open>Reading the transcripts\<close>

lemma getTranscripts_total: "\<exists>ts. getTranscripts rd code phase w = (Inr ts, w)"
  by (cases rd) (simp_all add: getTranscripts_def store_query_def async_defs)

lemma getTranscripts_rejected: "getTranscripts (Rejects e) code phase w = (Inr [], w)"
  by (simp add: getTranscripts_def store_query_def async_defs)

lemma getTranscripts_fst:
  assumes "fst (getTranscripts rd code phase w) = Inr ts"
  shows "getTranscripts rd code phase w = (Inr ts, w)"
  using assms getTranscripts_total [of rd code phase w] by auto

lemma setLoading_fields:
  "tree (setLoading b w) = tree w"
  "writes (setLoading b w) = writes w"
  "transcripts (setLoading b w) = transcripts w"
  "requests (setLoading b w) = requests w"
  "toasts (setLoading b w) = toasts w"
  by (simp_all add: setLoading_def)

lemma getTranscripts_setLoading:
  "fst (getTranscripts rd code phase (setLoading b w)) = fst (getTranscripts rd code phase w)"
  by (cases rd) (simp_all add: getTranscripts_def store_query_def async_defs setLoading_fields)

text \<open>
  Claim C5. With a cached session, when the transcript query for the current phase
  returns the empty list, \<open>handleGenerateThemes\<close> shows the error
  \<open>No transcripts found for this phase\<close>, sends no request to the theme proxy and issues
  no write to the store, so it never calls \<open>saveThemes\<close>; the store is as before.
\<close>

theorem no_transcripts_no_requests_no_writes:
  assumes "fst (getTranscripts rd code (Some currentPhase) w) = Inr []"
  shows "fst (handleGenerateThemes JSON_parse rd fetchOf saveOf (Some code) currentPhase w) = Inr () \<and>
    toasts (snd (handleGenerateThemes JSON_parse rd fetchOf saveOf (Some code) currentPhase w)) =
      toasts w @ [(''error'', ''No transcripts found for this phase'')] \<and>
    requests (snd (handleGenerateThemes JSON_parse rd fetchOf saveOf (Some code) currentPhase w)) =
      requests w \<and>
    writes (snd (handleGenerateThemes JSON_parse rd fetchOf saveOf (Some code) currentPhase w)) =
      writes w \<and>
    tree (snd (handleGenerateThemes JSON_parse rd fetchOf saveOf (Some code) currentPhase w)) =
      tree w \<and>
    transcripts (snd (handleGenerateThemes JSON_parse rd fetchOf saveOf (Some code) currentPhase w)) =
      transcripts w"
proof -
  have "fst (getTranscripts rd code (Some currentPhase) (setLoading True w)) = Inr []"
    using assms by (simp add: getTranscripts_setLoading)
  then have "getTranscripts rd code (Some currentPhase) (setLoading True w) =
      (Inr [], setLoading True w)"
    by (rule getTranscripts_fst)
  then have "handleGenerateThemes JSON_parse rd fetchOf saveOf (Some code) currentPhase w =
      (Inr (), setLoading False (showError ''No transcripts found for this phase''
         (setLoading True w)))"
    by (simp add: handleGenerateThemes_def async_defs)
  then show ?thesis
    by (simp add: setLoading_fields showError_fields)
qed

theorem no_transcripts_no_requests_no_writes_witness:
  "fst (getTranscripts Resolves ''ABC123'' (Some 0) sessionWorld) = Inr [] \<and>
   toasts (snd (handleGenerateThemes (\<lambda>v. v) Resolves (\<lambda>n. FetchRejects (Error ''TypeError'' ''offline''))
      (\<lambda>n. Resolves) (Some ''ABC123'') 0 sessionWorld)) =
      [(''error'', ''No transcripts found for this phase'')] \<and>
   requests (snd (handleGenerateThemes (\<lambda>v. v) Resolves (\<lambda>n. FetchRejects (Error ''TypeError'' ''offline''))
      (\<lambda>n. Resolves) (Some ''ABC123'') 0 sessionWorld)) = [] \<and>
   writes (snd (handleGenerateThemes (\<lambda>v. v) Resolves (\<lambda>n. FetchRejects (Error ''TypeError'' ''offline''))
      (\<lambda>n. Resolves) (Some ''ABC123'') 0 sessionWorld)) = writes sessionWorld"
proof -
  have none: "fst (getTranscripts Resolves ''ABC123'' (Some 0) sessionWorld) = Inr []"
    by code_simp
  have "toasts sessionWorld = []" "requests sessionWorld = []"
    by code_simp+
  then show ?thesis
    using none no_transcripts_no_requests_no_writes [OF none, of "\<lambda>v. v"
        "\<lambda>n. FetchRejects (Error ''TypeError'' ''offline'')" "\<lambda>n. Resolves"]
    by simp
qed

section \<open>One request and one write per table\<close>

lemma generateThemesFromText_eq:
  "generateThemesFromText JSON_parse fr (join [CHR 0x0A, CHR 0x0A] texts) w =
     (Inr (themesOf JSON_parse fr), w\<lparr>requests := requests w @ [themeRequest texts]\<rparr>)"
proof (cases fr)
  case (FetchRejects e)
  then show ?thesis
    by (simp add: generateThemesFromText_def fetch_def themesOf_def themeRequest_def async_defs)
next
  case (Responds ok data)
  then show ?thesis
    by (cases ok; cases data)
      (simp_all add: generateThemesFromText_def fetch_def response_json_def themesOf_def
        themeRequest_def async_defs)
qed

lemma themeData_stored:
  "stored (JObj [(''sessionCode'', JStr code), (''tableNumber'', JNum (int n)), (''themes'', themes),
        (''synthesis'', JNull), (''timestamp'', ServerTimestamp)]) = storedThemes code n themes"
  by (simp add: node_def storedThemes_def)

lemmas ref_themes_path = ref_themes [simplified]

lemma saveThemes_Resolves:
  assumes "isKey code"
  shows "saveThemes Resolves code n themes JNull w =
    (Inr (JBool True), trackEvent ''themes'' ''save'' (''table'' @ show_nat n)
       (w\<lparr>writes := writes w @ [Set (themesPath code n) (storedThemes code n themes)],
          tree := set_at (themesPath code n) (storedThemes code n themes) (tree w)\<rparr>))"
  unfolding saveThemes_def store_set_def themeData_stored Let_def
  using assms by (simp add: async_defs ref_themes_path)

lemma saveThemes_Rejects:
  assumes "isKey code"
  shows "saveThemes (Rejects e) code n themes JNull w =
    (Inr (JBool False), showError ''Failed to save themes''
       (w\<lparr>writes := writes w @ [Set (themesPath code n) (storedThemes code n themes)]\<rparr>))"
  unfolding saveThemes_def store_set_def themeData_stored Let_def
  using assms by (simp add: async_defs ref_themes_path)

lemma saveThemes_effect:
  assumes "isKey code"
  shows "fst (saveThemes oc code n themes JNull w) = Inr (JBool (oc = Resolves))"
    and "requests (snd (saveThemes oc code n themes JNull w)) = requests w"
    and "writes (snd (saveThemes oc code n themes JNull w)) =
      writes w @ [Set (themesPath code n) (storedThemes code n themes)]"
    and "tree (snd (saveThemes oc code n themes JNull w)) = saved oc code n themes (tree w)"
  by (cases oc; simp add: saveThemes_Resolves [OF assms] saveThemes_Rejects [OF assms]
      trackEvent_fields showError_fields saved_def)+

lemma themesLoop_effect:
  assumes "isKey code"
  shows "fst (themesLoop JSON_parse fetchOf saveOf code (map (\<lambda>nt. (show_nat (fst nt), snd nt)) nts) w) = Inr () \<and>
    requests (snd (themesLoop JSON_parse fetchOf saveOf code (map (\<lambda>nt. (show_nat (fst nt), snd nt)) nts) w)) =
      requests w @ map (\<lambda>nt. themeRequest (snd nt)) nts \<and>
    writes (snd (themesLoop JSON_parse fetchOf saveOf code (map (\<lambda>nt. (show_nat (fst nt), snd nt)) nts) w)) =
      writes w @ map (\<lambda>nt. Set (themesPath code (fst nt))
        (storedThemes code (fst nt) (themesOf JSON_parse (fetchOf (fst nt))))) nts \<and>
    tree (snd (themesLoop JSON_parse fetchOf saveOf code (map (\<lambda>nt. (show_nat (fst nt), snd nt)) nts) w)) =
      foldl (\<lambda>t n. saved (saveOf n) code n (themesOf JSON_parse (fetchOf n)) t) (tree w) (map fst nts)"
proof (induction nts arbitrary: w)
  case Nil
  then show ?case by (simp add: succeed_def)
next
  case (Cons nt nts)
  obtain n texts where nt: "nt = (n, texts)" by (cases nt)
  let ?w1 = "w\<lparr>requests := requests w @ [themeRequest texts]\<rparr>"
  let ?w2 = "snd (saveThemes (saveOf n) code n (themesOf JSON_parse (fetchOf n)) JNull ?w1)"
  have step: "themesLoop JSON_parse fetchOf saveOf code
      (map (\<lambda>nt. (show_nat (fst nt), snd nt)) (nt # nts)) w =
      themesLoop JSON_parse fetchOf saveOf code (map (\<lambda>nt. (show_nat (fst nt), snd nt)) nts) ?w2"
    using saveThemes_effect(1) [OF assms, of "saveOf n" n "themesOf JSON_parse (fetchOf n)" ?w1]
    by (cases "saveThemes (saveOf n) code n (themesOf JSON_parse (fetchOf n)) JNull ?w1")
      (simp add: nt parseInt_show_nat generateThemesFromText_eq await_def)
  show ?case
    unfolding step
    using Cons.IH [of ?w2] saveThemes_effect(2-4) [OF assms, of "saveOf n" n
        "themesOf JSON_parse (fetchOf n)" ?w1]
    by (simp add: nt)
qed

lemma themesPath_diverge:
  "m \<noteq> n \<Longrightarrow> get_at (themesPath code n) (set_at (themesPath code m) v t) =
     get_at (themesPath code n) t"
  using get_at_set_at_diverge [of "''table'' @ show_nat n" "''table'' @ show_nat m"
      "[''themes'', code]" "[]" "[]" v t]
  by (auto simp: themesPath_def dest: show_nat_inj)

lemma saved_other:
  "m \<noteq> n \<Longrightarrow> get_at (themesPath code n) (saved oc code m themes t) = get_at (themesPath code n) t"
  by (cases oc) (simp_all add: saved_def themesPath_diverge)

lemma saved_same:
  "get_at (themesPath code n) (saved oc code n themes t) =
     (case oc of Resolves \<Rightarrow> storedThemes code n themes | Rejects e \<Rightarrow> get_at (themesPath code n) t)"
  by (cases oc) (simp_all add: saved_def get_at_set_at)

lemma foldl_saved_other:
  "n \<notin> set ns \<Longrightarrow>
     get_at (themesPath code n) (foldl (\<lambda>t m. saved (saveOf m) code m (themes m) t) t ns) =
     get_at (themesPath code n) t"
  by (induction ns arbitrary: t) (auto simp: saved_other)

lemma foldl_saved_member:
  "distinct ns \<Longrightarrow> n \<in> set ns \<Longrightarrow>
     get_at (themesPath code n) (foldl (\<lambda>t m. saved (saveOf m) code m (themes m) t) t ns) =
     (case saveOf n of Resolves \<Rightarrow> storedThemes code n (themes n)
      | Rejects e \<Rightarrow> get_at (themesPath code n) t)"
proof (induction ns arbitrary: t)
  case Nil
  then show ?case by simp
next
  case (Cons m ns)
  show ?case
  proof (cases "m = n")
    case True
    then have "n \<notin> set ns" using Cons.prems by simp
    then show ?thesis
      using True by (simp add: foldl_saved_other saved_same)
  next
    case False
    then show ?thesis
      using Cons by (simp add: saved_other split: outcome.splits)
  qed
qed

section \<open>Grouping by table\<close>

lemma addTranscript_eq:
  "addTranscript al t =
     AList.update (show_nat (t_tableNumber (snd t)))
       ((case map_of al (show_nat (t_tableNumber (snd t))) of None \<Rightarrow> [] | Some x \<Rightarrow> x) @
        [t_transcript (snd t)]) al"
  by (cases "map_of al (show_nat (t_tableNumber (snd t)))")
    (simp_all add: addTranscript_def Let_def AList.update_conv')

lemma addTranscript_map_of:
  "map_of (addTranscript al t) =
     (map_of al)(show_nat (t_tableNumber (snd t)) \<mapsto>
        (case map_of al (show_nat (t_tableNumber (snd t))) of None \<Rightarrow> [] | Some x \<Rightarrow> x) @
        [t_transcript (snd t)])"
  by (simp add: addTranscript_eq AList.update_conv')

lemma addTranscript_distinct:
  "distinct (map fst al) \<Longrightarrow> distinct (map fst (addTranscript al t))"
  by (simp add: addTranscript_eq AList.distinct_update)

lemma addTranscript_keys:
  "fst ` set (addTranscript al t) = insert (show_nat (t_tableNumber (snd t))) (fst ` set al)"
  by (simp add: addTranscript_eq AList.dom_update)

lemma grouped_distinct:
  "distinct (map fst al) \<Longrightarrow> distinct (map fst (foldl addTranscript al ts))"
  by (induction ts arbitrary: al) (simp_all add: addTranscript_distinct)

lemma grouped_keys:
  "fst ` set (foldl addTranscript al ts) =
     fst ` set al \<union> (\<lambda>t. show_nat (t_tableNumber (snd t))) ` set ts"
  by (induction ts arbitrary: al) (simp_all add: addTranscript_keys)

lemma textsOf_Cons:
  "textsOf n (t # ts) =
     (if t_tableNumber (snd t) = n then [t_transcript (snd t)] else []) @ textsOf n ts"
  by (simp add: textsOf_def)

lemma textsOf_empty: "n \<notin> (\<lambda>t. t_tableNumber (snd t)) ` set ts \<Longrightarrow> textsOf n ts = []"
  by (induction ts) (auto simp: textsOf_def)

lemma grouped_lookup:
  "map_of (foldl addTranscript al ts) (show_nat n) =
     (if n \<in> (\<lambda>t. t_tableNumber (snd t)) ` set ts
      then Some ((case map_of al (show_nat n) of None \<Rightarrow> [] | Some x \<Rightarrow> x) @ textsOf n ts)
      else map_of al (show_nat n))"
proof (induction ts arbitrary: al)
  case Nil
  then show ?case by simp
next
  case (Cons t ts)
  show ?case
  proof (cases "t_tableNumber (snd t) = n")
    case True
    then show ?thesis
      by (simp add: Cons.IH addTranscript_map_of textsOf_Cons textsOf_empty)
  next
    case False
    then have "show_nat (t_tableNumber (snd t)) \<noteq> show_nat n"
      by (auto dest: show_nat_inj)
    then show ?thesis
      using False by (simp add: Cons.IH addTranscript_map_of textsOf_Cons)
  qed
qed

lemma grouped_entry:
  assumes "e \<in> set (foldl addTranscript [] ts)"
  shows "parseInt (fst e) \<in> (\<lambda>t. t_tableNumber (snd t)) ` set ts \<and>
    e = (show_nat (parseInt (fst e)), textsOf (parseInt (fst e)) ts)"
proof -
  have "fst e \<in> fst ` set (foldl addTranscript [] ts)"
    using assms by (rule imageI)
  then obtain t where t: "t \<in> set ts" "fst e = show_nat (t_tableNumber (snd t))"
    by (auto simp: grouped_keys)
  let ?n = "t_tableNumber (snd t)"
  have n: "parseInt (fst e) = ?n"
    using t(2) by (simp add: parseInt_show_nat)
  have "distinct (map fst (foldl addTranscript [] ts))"
    by (rule grouped_distinct) simp
  then have "map_of (foldl addTranscript [] ts) (fst e) = Some (snd e)"
    using assms by (simp add: map_of_eq_Some_iff)
  then have "snd e = textsOf ?n ts"
    using t by (simp add: grouped_lookup)
  then show ?thesis
    using t n by (auto simp: prod_eq_iff)
qed

lemma addTranscript_order:
  "map fst (addTranscript al t) =
     (if show_nat (t_tableNumber (snd t)) \<in> set (map fst al) then map fst al
      else map fst al @ [show_nat (t_tableNumber (snd t))])"
  by (simp only: addTranscript_eq AList.update_keys)

lemma show_nat_mem: "show_nat n \<in> show_nat ` A \<longleftrightarrow> n \<in> A"
  by (auto dest: show_nat_inj)

lemma grouped_order:
  "map fst al = map show_nat seen \<Longrightarrow>
     map fst (foldl addTranscript al ts) =
     map show_nat (foldl (\<lambda>seen n. if n \<in> set seen then seen else seen @ [n]) seen
       (map (\<lambda>t. t_tableNumber (snd t)) ts))"
proof (induction ts arbitrary: al seen)
  case Nil
  then show ?case by simp
next
  case (Cons t ts)
  let ?n = "t_tableNumber (snd t)"
  have "set (map fst al) = show_nat ` set seen"
    by (simp add: Cons.prems)
  then have "map fst (addTranscript al t) =
      map show_nat (if ?n \<in> set seen then seen else seen @ [?n])"
    by (simp add: addTranscript_order show_nat_mem Cons.prems)
  then show ?case
    using Cons.IH [of "addTranscript al t" "if ?n \<in> set seen then seen else seen @ [?n]"]
    by simp
qed

lemma grouped_list:
  "foldl addTranscript [] ts =
     map (\<lambda>n. (show_nat n, textsOf n ts)) (firstSeen (map (\<lambda>t. t_tableNumber (snd t)) ts))"
proof -
  let ?A = "foldl addTranscript [] ts"
  have keys: "map fst ?A = map show_nat (firstSeen (map (\<lambda>t. t_tableNumber (snd t)) ts))"
    using grouped_order [of "[]" "[]" ts] by (simp add: firstSeen_def)
  have "map (\<lambda>e. (show_nat (parseInt (fst e)), textsOf (parseInt (fst e)) ts)) ?A = ?A"
    by (rule map_idI) (use grouped_entry in force)
  then have "?A = map (\<lambda>n. (show_nat n, textsOf n ts)) (map parseInt (map fst ?A))"
    by (simp add: comp_def)
  also have "map parseInt (map fst ?A) = firstSeen (map (\<lambda>t. t_tableNumber (snd t)) ts)"
    unfolding keys by (simp add: comp_def parseInt_show_nat)
  finally show ?thesis .
qed

lemma insort_key_map:
  "insort_key f (g x) (map g xs) = map g (insort_key (\<lambda>y. f (g y)) x xs)"
  by (induction xs) simp_all

lemma sort_key_map: "sort_key f (map g xs) = map g (sort_key (\<lambda>y. f (g y)) xs)"
  by (induction xs) (simp_all add: insort_key_map)

lemma isArrayIndex_show_nat: "isArrayIndex (show_nat n) \<longleftrightarrow> n < 4294967295"
  by (simp add: isArrayIndex_def parseInt_show_nat)

lemma objectEntries_map:
  "objectEntries (map (\<lambda>n. (show_nat n, texts n)) ns) =
     map (\<lambda>n. (show_nat n, texts n))
       (sort (filter (\<lambda>n. n < 4294967295) ns) @ filter (\<lambda>n. \<not> n < 4294967295) ns)"
  by (simp add: objectEntries_def filter_map comp_def isArrayIndex_show_nat sort_key_map
      parseInt_show_nat)

lemma objectEntries_grouped:
  "objectEntries (foldl addTranscript [] ts) =
     map (\<lambda>n. (show_nat n, textsOf n ts)) (tablesOf ts)"
  by (simp only: grouped_list objectEntries_map tablesOf_def Let_def)

lemma foldl_seen:
  "distinct seen \<Longrightarrow>
     distinct (foldl (\<lambda>seen n. if n \<in> set seen then seen else seen @ [n]) seen ns) \<and>
     set (foldl (\<lambda>seen n. if n \<in> set seen then seen else seen @ [n]) seen ns) = set seen \<union> set ns"
  by (induction ns arbitrary: seen) auto

lemma tablesOf_distinct: "distinct (tablesOf ts)"
  using foldl_seen [of "[]" "map (\<lambda>t. t_tableNumber (snd t)) ts"]
  by (auto simp: tablesOf_def firstSeen_def Let_def)

lemma tablesOf_set: "set (tablesOf ts) = (\<lambda>t. t_tableNumber (snd t)) ` set ts"
  using foldl_seen [of "[]" "map (\<lambda>t. t_tableNumber (snd t)) ts"]
  by (auto simp: tablesOf_def firstSeen_def Let_def)

section \<open>Theme generation over the tables\<close>

lemma page_fields:
  "tree (showSuccess m w) = tree w" "writes (showSuccess m w) = writes w"
  "requests (showSuccess m w) = requests w"
  "tree (addActivity a w) = tree w" "writes (addActivity a w) = writes w"
  "requests (addActivity a w) = requests w"
  by (simp_all add: showSuccess_def showToast_def addActivity_def)

lemma themesLoop_tables:
  assumes "isKey code"
  shows "fst (themesLoop JSON_parse fetchOf saveOf code
        (map (\<lambda>n. (show_nat n, textsOf n ts)) ns) w) = Inr ()"
    and "requests (snd (themesLoop JSON_parse fetchOf saveOf code
        (map (\<lambda>n. (show_nat n, textsOf n ts)) ns) w)) =
      requests w @ map (\<lambda>n. themeRequest (textsOf n ts)) ns"
    and "writes (snd (themesLoop JSON_parse fetchOf saveOf code
        (map (\<lambda>n. (show_nat n, textsOf n ts)) ns) w)) =
      writes w @
      map (\<lambda>n. Set (themesPath code n) (storedThemes code n (themesOf JSON_parse (fetchOf n)))) ns"
    and "tree (snd (themesLoop JSON_parse fetchOf saveOf code
        (map (\<lambda>n. (show_nat n, textsOf n ts)) ns) w)) =
      foldl (\<lambda>t n. saved (saveOf n) code n (themesOf JSON_parse (fetchOf n)) t) (tree w) ns"
  using themesLoop_effect [OF assms, of JSON_parse fetchOf saveOf "map (\<lambda>n. (n, textsOf n ts)) ns" w]
  by (simp_all add: comp_def)

lemma handleGenerateThemes_loop:
  assumes key: "isKey code"
    and ts: "fst (getTranscripts rd code (Some currentPhase) w) = Inr ts"
    and ne: "ts \<noteq> []"
  shows "handleGenerateThemes JSON_parse rd fetchOf saveOf (Some code) currentPhase w =
    (Inr (),
     trackEvent ''workshop'' ''generate_themes'' (''phase_'' @ show_int currentPhase)
       (addActivity ''Themes generated from transcripts''
         (showSuccess ''Themes generated successfully!''
           (setLoading False
             (snd (themesLoop JSON_parse fetchOf saveOf code
                (map (\<lambda>n. (show_nat n, textsOf n ts)) (tablesOf ts))
                (setLoading True w)))))))"
proof -
  let ?es = "map (\<lambda>n. (show_nat n, textsOf n ts)) (tablesOf ts)"
  have "fst (getTranscripts rd code (Some currentPhase) (setLoading True w)) = Inr ts"
    using ts by (simp add: getTranscripts_setLoading)
  then have get: "getTranscripts rd code (Some currentPhase) (setLoading True w) =
      (Inr ts, setLoading True w)"
    by (rule getTranscripts_fst)
  have "fst (themesLoop JSON_parse fetchOf saveOf code ?es (setLoading True w)) = Inr ()"
    using key by (rule themesLoop_tables(1))
  then obtain w1 where loop:
    "themesLoop JSON_parse fetchOf saveOf code ?es (setLoading True w) = (Inr (), w1)"
    by (cases "themesLoop JSON_parse fetchOf saveOf code ?es (setLoading True w)") simp
  show ?thesis
    using ne by (simp add: handleGenerateThemes_def async_defs get objectEntries_grouped loop Let_def)
qed

text \<open>
  Claim C6. With a cached session whose code is a single path piece and a non-empty list
  of transcripts for the current phase, whose table numbers are integers from 0 to
  \<open>2^53 - 1\<close>, \<open>handleGenerateThemes\<close> returns normally. It sends exactly one request to the
  theme proxy per table, each with the joined texts of that table, in the order in which
  \<open>Object.entries\<close> lists the groups: the table numbers below \<open>2^32 - 1\<close> ascending, then
  the larger ones in the order of their first transcript. It issues exactly one store
  write per table, in the same order, to \<open>themes/{code}/table{n}\<close>, with the themes that
  this table's own request led to. Whatever the requests and writes of the other tables
  do, a table whose write is accepted ends with its own theme record in the store, and a
  table whose write is rejected keeps what the store held for it before.
\<close>

theorem themes_written_per_table:
  assumes "isKey code"
    and "fst (getTranscripts rd code (Some currentPhase) w) = Inr ts"
    and "ts \<noteq> []"
    and "\<forall>t\<in>set ts. t_tableNumber (snd t) < 9007199254740992"
  shows "fst (handleGenerateThemes JSON_parse rd fetchOf saveOf (Some code) currentPhase w) = Inr () \<and>
    requests (snd (handleGenerateThemes JSON_parse rd fetchOf saveOf (Some code) currentPhase w)) =
      requests w @ map (\<lambda>n. themeRequest (textsOf n ts)) (tablesOf ts) \<and>
    writes (snd (handleGenerateThemes JSON_parse rd fetchOf saveOf (Some code) currentPhase w)) =
      writes w @
      map (\<lambda>n. Set (themesPath code n) (storedThemes code n (themesOf JSON_parse (fetchOf n))))
        (tablesOf ts) \<and>
    (\<forall>n\<in>set (tablesOf ts).
       get_at (themesPath code n)
         (tree (snd (handleGenerateThemes JSON_parse rd fetchOf saveOf (Some code) currentPhase w))) =
       (case saveOf n of
          Resolves \<Rightarrow> storedThemes code n (themesOf JSON_parse (fetchOf n))
        | Rejects e \<Rightarrow> get_at (themesPath code n) (tree w)))"
proof -
  let ?loop = "themesLoop JSON_parse fetchOf saveOf code
    (map (\<lambda>n. (show_nat n, textsOf n ts)) (tablesOf ts)) (setLoading True w)"
  note eff = themesLoop_tables [OF assms(1), of JSON_parse fetchOf saveOf ts "tablesOf ts"
      "setLoading True w"]
  note run = handleGenerateThemes_loop [OF assms(1-3), of JSON_parse fetchOf saveOf]
  have req: "requests (snd ?loop) = requests w @ map (\<lambda>n. themeRequest (textsOf n ts)) (tablesOf ts)"
    using eff(2) by (simp add: setLoading_fields)
  have wr: "writes (snd ?loop) = writes w @
      map (\<lambda>n. Set (themesPath code n) (storedThemes code n (themesOf JSON_parse (fetchOf n))))
        (tablesOf ts)"
    using eff(3) by (simp add: setLoading_fields)
  have tr: "tree (snd ?loop) =
      foldl (\<lambda>t n. saved (saveOf n) code n (themesOf JSON_parse (fetchOf n)) t) (tree w) (tablesOf ts)"
    using eff(4) by (simp add: setLoading_fields)
  have d: "distinct (tablesOf ts)"
    by (rule tablesOf_distinct)
  have each: "\<forall>n\<in>set (tablesOf ts).
      get_at (themesPath code n) (tree (snd ?loop)) =
      (case saveOf n of
         Resolves \<Rightarrow> storedThemes code n (themesOf JSON_parse (fetchOf n))
       | Rejects e \<Rightarrow> get_at (themesPath code n) (tree w))"
    unfolding tr
    using foldl_saved_member [OF d, where code = code and saveOf = saveOf
        and themes = "\<lambda>n. themesOf JSON_parse (fetchOf n)" and t = "tree w"]
    by blast
  show ?thesis
    unfolding run
    using req wr each
    by (simp add: trackEvent_fields page_fields setLoading_fields)
qed

theorem themes_written_per_table_witness:
  "fst (getTranscripts Resolves ''ABC123'' (Some 0) transcriptsWorld) = Inr phaseZero \<and>
   tablesOf phaseZero = [1, 2] \<and>
   requests (snd (handleGenerateThemes (\<lambda>v. v) Resolves demoFetch demoSave (Some ''ABC123'') 0
      transcriptsWorld)) =
     [themeRequest [''table one'', ''more from one''], themeRequest [''table two'']] \<and>
   get_at (themesPath ''ABC123'' 1)
     (tree (snd (handleGenerateThemes (\<lambda>v. v) Resolves demoFetch demoSave (Some ''ABC123'') 0
        transcriptsWorld))) =
     storedThemes ''ABC123'' 1 (JArr [JStr ''Theme extraction failed'']) \<and>
   get_at (themesPath ''ABC123'' 2)
     (tree (snd (handleGenerateThemes (\<lambda>v. v) Resolves demoFetch demoSave (Some ''ABC123'') 0
        transcriptsWorld))) = JNull"
proof -
  have key: "isKey ''ABC123''"
    by (simp add: isKey_def)
  have ts: "fst (getTranscripts Resolves ''ABC123'' (Some 0) transcriptsWorld) = Inr phaseZero"
    by code_simp
  have ne: "phaseZero \<noteq> []"
    by (simp add: phaseZero_def)
  have small: "\<forall>t\<in>set phaseZero. t_tableNumber (snd t) < 9007199254740992"
    by (simp add: phaseZero_def)
  have tables: "tablesOf phaseZero = [1, 2]"
    by (simp add: tablesOf_def firstSeen_def phaseZero_def)
  have texts: "textsOf 1 phaseZero = [''table one'', ''more from one'']"
    "textsOf 2 phaseZero = [''table two'']"
    by code_simp+
  have before: "requests transcriptsWorld = []"
    "get_at (themesPath ''ABC123'' 2) (tree transcriptsWorld) = JNull"
    by code_simp+
  show ?thesis
    using ts tables texts before
      themes_written_per_table [OF key ts ne small, of "\<lambda>v. v" demoFetch demoSave]
    by (simp add: demoFetch_def demoSave_def themesOf_def)
qed

section \<open>Calls within one debounce window\<close>

lemma sorted_between:
  assumes "sorted xs" and "x \<in> set xs"
  shows "hd xs \<le> x \<and> x \<le> last xs"
  using assms
proof (induction xs)
  case Nil
  then show ?case by simp
next
  case (Cons a xs)
  then show ?case
    by (cases "xs = []") (auto simp: hd_in_set dest: last_in_set)
qed

lemma runTimers_idle:
  assumes "oneTimer bound d" and "now < bound"
  shows "runTimers func now (d, w) = (d, w)"
  using assms by (auto simp: oneTimer_def runTimers_def)

lemma executedFunction_oneTimer:
  assumes "oneTimer bound d"
  shows "pending (executedFunction wait now args d) = [(nextId d, now + wait, args)]"
    and "timeout (executedFunction wait now args d) = Some (nextId d)"
  using assms
  by (auto simp: oneTimer_def executedFunction_def clearTimeout_def setTimeout_def Let_def
      split: option.splits)

lemma debouncedCalls_window:
  assumes "cs \<noteq> []"
    and "\<forall>c\<in>set cs. lo \<le> fst c \<and> fst c < lo + wait"
    and "oneTimer (lo + wait) d"
  shows "\<exists>d' i. debouncedCalls func wait cs (d, w) = (d', w) \<and>
    pending d' = [(i, fst (last cs) + wait, snd (last cs))] \<and> timeout d' = Some i"
  using assms
proof (induction cs arbitrary: d)
  case Nil
  then show ?case by simp
next
  case (Cons c cs)
  obtain now args where c: "c = (now, args)" by (cases c)
  have now: "lo \<le> now" "now < lo + wait"
    using Cons.prems(2) c by auto
  have idle: "runTimers func now (d, w) = (d, w)"
    using Cons.prems(3) now(2) by (rule runTimers_idle)
  let ?d = "executedFunction wait now args d"
  note set = executedFunction_oneTimer [OF Cons.prems(3), of wait now args]
  show ?case
  proof (cases "cs = []")
    case True
    then show ?thesis
      using set by (simp add: c idle)
  next
    case False
    have "oneTimer (lo + wait) ?d"
      using set now(1) by (simp add: oneTimer_def)
    then have "\<exists>d' i. debouncedCalls func wait cs (?d, w) = (d', w) \<and>
        pending d' = [(i, fst (last cs) + wait, snd (last cs))] \<and> timeout d' = Some i"
      using False Cons.prems(2) by (intro Cons.IH) simp_all
    then show ?thesis
      using False by (simp add: c idle)
  qed
qed

lemma runTimers_due:
  assumes "pending d = [(i, due, args)]" and "due \<le> now"
  shows "snd (runTimers func now (d, w)) = func args w"
  using assms by (simp add: runTimers_def later_def)

lemma statusWrite_writes: "writes (statusWrite oc args w) = writes w @ [statusSet args]"
  by (cases args; cases oc)
    (simp_all add: statusWrite_def statusSet_def writeParticipantStatus_def store_set_def
      async_defs Let_def)

text \<open>
  Claim C7. Let \<open>N \<ge> 1\<close> calls of the debounced \<open>updateParticipantStatus\<close> be made in
  order of time, the last less than 500 ms after the first, with no timer set before the
  first. Each call clears the timer that the call before it has set and sets its own. Then
  at any time from 500 ms after the last call on, exactly one write has been issued to the
  store: the status write with the arguments of the last call. The arguments of the
  earlier calls are never written.
\<close>

theorem debounced_presence_writes_last_once:
  assumes "calls \<noteq> []"
    and "sorted (map fst calls)"
    and "fst (last calls) < fst (hd calls) + 500"
    and "fst (last calls) + 500 \<le> finish"
  shows "writes (presence oc calls finish w) = writes w @ [statusSet (snd (last calls))]"
proof -
  let ?lo = "fst (hd calls)"
  have window: "\<forall>c\<in>set calls. ?lo \<le> fst c \<and> fst c < ?lo + 500"
  proof
    fix c
    assume "c \<in> set calls"
    then have "fst c \<in> set (map fst calls)" by simp
    then have "hd (map fst calls) \<le> fst c \<and> fst c \<le> last (map fst calls)"
      using assms(2) by (intro sorted_between)
    then show "?lo \<le> fst c \<and> fst c < ?lo + 500"
      using assms(1,3) by (simp add: hd_map last_map)
  qed
  have "oneTimer (?lo + 500) (newDebounced :: (string \<times> string \<times> string) debounced)"
    by (simp add: oneTimer_def newDebounced_def)
  with assms(1) window obtain d i where run:
    "debouncedCalls (statusWrite oc) 500 calls (newDebounced, w) = (d, w)"
    "pending d = [(i, fst (last calls) + 500, snd (last calls))]"
    using debouncedCalls_window [of calls ?lo 500 newDebounced "statusWrite oc" w] by blast
  show ?thesis
    using runTimers_due [OF run(2) assms(4), of "statusWrite oc" w]
    by (simp add: presence_def run(1) statusWrite_writes)
qed

theorem debounced_presence_writes_last_once_witness:
  "writes (presence Resolves
      [(1000, ''ABC123'', ''p1'', ''online''), (1200, ''ABC123'', ''p1'', ''away''),
       (1499, ''ABC123'', ''p1'', ''offline'')] 2000 sessionWorld) =
     writes sessionWorld @ [statusSet (''ABC123'', ''p1'', ''offline'')]"
  using debounced_presence_writes_last_once [of
      "[(1000, ''ABC123'', ''p1'', ''online''), (1200, ''ABC123'', ''p1'', ''away''),
        (1499, ''ABC123'', ''p1'', ''offline'')]" 2000 Resolves sessionWorld]
  by simp

section \<open>One upstream call, one failure path\<close>






















end
